theory Spec2Isabelle
  imports Main
begin

section \<open>JavaScript strings and values used by googlesearch.js\<close>

text \<open>
  Strings are character lists, one \<^typ>\<open>char\<close> per code unit, so they hold the code
  units up to \<open>0xFF\<close>; text with other code units is outside the model. A value that may be \<^verbatim>\<open>undefined\<close> (the \<^verbatim>\<open>keyword\<close> argument, the
  \<^verbatim>\<open>href\<close> property of an element that is not an anchor) is a \<^typ>\<open>string option\<close>.
  \<open>truthy\<close> is the test JavaScript applies to such a value in \<^verbatim>\<open>if (keyword)\<close>:
  \<^verbatim>\<open>undefined\<close> and the empty string are falsy.
\<close>

definition truthy :: "string option \<Rightarrow> bool" where
  "truthy v = (case v of None \<Rightarrow> False | Some s \<Rightarrow> s \<noteq> [])"

fun startsWith :: "string \<Rightarrow> string \<Rightarrow> bool" where
  "startsWith s [] = True"
| "startsWith [] (p # ps) = False"
| "startsWith (c # cs) (p # ps) = (c = p \<and> startsWith cs ps)"

text \<open>\<^verbatim>\<open>s.includes(sub)\<close>: \<open>sub\<close> occurs in \<open>s\<close> as a contiguous run.\<close>

fun js_includes :: "string \<Rightarrow> string \<Rightarrow> bool" where
  "js_includes [] sub = (sub = [])"
| "js_includes (c # cs) sub = (startsWith (c # cs) sub \<or> js_includes cs sub)"

text \<open>
  White space as \<^verbatim>\<open>String.prototype.trim\<close> and the regular expression class
  \<^verbatim>\<open>\s\<close> see it, within the 8-bit range: tab, line feed, vertical tab, form feed,
  carriage return, space and no-break space.
\<close>

definition is_space :: "char \<Rightarrow> bool" where
  "is_space c = (c = CHR 0x09 \<or> c = CHR 0x0A \<or> c = CHR 0x0B \<or> c = CHR 0x0C
     \<or> c = CHR 0x0D \<or> c = CHR 0x20 \<or> c = CHR 0xA0)"

definition trim :: "string \<Rightarrow> string" where
  "trim s = rev (dropWhile is_space (rev (dropWhile is_space s)))"

text \<open>\<^verbatim>\<open>s.split('\n')[0]\<close>: the text before the first line feed.\<close>

definition first_line :: "string \<Rightarrow> string" where
  "first_line s = takeWhile (\<lambda>c. c \<noteq> CHR 0x0A) s"

definition lower_char :: "char \<Rightarrow> char" where
  "lower_char c = (let n = (of_char c :: nat) in if 65 \<le> n \<and> n \<le> 90 then char_of (n + 32) else c)"

definition toLowerCase :: "string \<Rightarrow> string" where
  "toLowerCase s = map lower_char s"

text \<open>\<^verbatim>\<open>s.replace(/\s+/g, ' ')\<close>: every run of white space becomes one space.\<close>

function collapse_ws :: "string \<Rightarrow> string" where
  "collapse_ws [] = []"
| "collapse_ws (c # cs) =
     (if is_space c then CHR 0x20 # collapse_ws (dropWhile is_space cs) else c # collapse_ws cs)"
  by pat_completeness auto
termination
  by (relation "measure length") (auto simp: length_dropWhile_le less_Suc_eq_le)

text \<open>\<^verbatim>\<open>s.replace(/\.\.\.$/, '')\<close>: a trailing ellipsis of three dots is removed.\<close>

definition strip_ellipsis :: "string \<Rightarrow> string" where
  "strip_ellipsis s = (if startsWith (rev s) ''...'' then rev (drop 3 (rev s)) else s)"

text \<open>\<^verbatim>\<open>[...new Set(parts)]\<close>: the first occurrence of each string, in insertion order.\<close>

fun dedupe :: "string list \<Rightarrow> string list \<Rightarrow> string list" where
  "dedupe seen [] = seen"
| "dedupe seen (x # xs) = dedupe (if x \<in> set seen then seen else seen @ [x]) xs"

text \<open>\<^verbatim>\<open>parts.join(' ')\<close>.\<close>

fun join_sp :: "string list \<Rightarrow> string" where
  "join_sp [] = []"
| "join_sp [x] = x"
| "join_sp (x # y # r) = x @ CHR 0x20 # join_sp (y # r)"

section \<open>The platform's URL and URLSearchParams\<close>

text \<open>
  \<^verbatim>\<open>new URL(url, base).search\<close> for a string the constructor accepts: the query is the
  text after the first \<^verbatim>\<open>?\<close> and before the first \<^verbatim>\<open>#\<close>; \<^verbatim>\<open>search\<close> is that query
  with its question mark, or the empty string when the query is empty. Which strings the
  constructor rejects (it throws a TypeError) is left to the browser: it is a parameter
  of the extraction, \<open>rejected\<close> below. The url is taken as the \<^verbatim>\<open>href\<close> property gives
  it, a serialized URL: the parser would drop a tab or line break, which such a url does
  not hold.
\<close>

definition url_search :: "string \<Rightarrow> string" where
  "url_search u =
     (let q = dropWhile (\<lambda>c. c \<noteq> CHR ''?'') (takeWhile (\<lambda>c. c \<noteq> CHR ''#'') u)
      in if length q \<le> 1 then [] else q)"

definition hex_val :: "char \<Rightarrow> nat option" where
  "hex_val c =
     (let n = (of_char c :: nat) in
      if 48 \<le> n \<and> n \<le> 57 then Some (n - 48)
      else if 65 \<le> n \<and> n \<le> 70 then Some (n - 55)
      else if 97 \<le> n \<and> n \<le> 102 then Some (n - 87)
      else None)"

text \<open>
  The decoding of a name or value by the form-urlencoded parser, in two steps as the
  platform does it. First the bytes: \<^verbatim>\<open>+\<close> is a space, \<^verbatim>\<open>%\<close> followed by two
  hexadecimal digits is the byte they denote, any other character stands for its UTF-8
  bytes (the URL parser has percent-encoded a character beyond ASCII as these bytes).
  Then the bytes are decoded as UTF-8 into code units. The strings of this model hold the
  code units up to \<open>0xFF\<close>, which UTF-8 writes in one byte or in two bytes led by \<open>0xC2\<close>
  or \<open>0xC3\<close>; \<open>utf8_decode\<close> is \<open>None\<close> on any other byte sequence, whose decoding (a
  code unit from \<open>0x100\<close> on, or the replacement character for a malformed sequence) the
  strings of this model cannot hold.
\<close>

definition utf8_char :: "char \<Rightarrow> string" where
  "utf8_char c =
     (let n = (of_char c :: nat) in
      if n < 128 then [c] else [char_of (192 + n div 64), char_of (128 + n mod 64)])"

fun form_bytes :: "string \<Rightarrow> string" where
  "form_bytes [] = []"
| "form_bytes (c # cs) =
     (if c = CHR ''%'' then
        (case cs of
           a # b # r \<Rightarrow>
             (case (hex_val a, hex_val b) of
                (Some h, Some l) \<Rightarrow> char_of (16 * h + l) # form_bytes r
              | _ \<Rightarrow> c # form_bytes cs)
         | _ \<Rightarrow> c # form_bytes cs)
      else if c = CHR ''+'' then CHR 0x20 # form_bytes cs
      else utf8_char c @ form_bytes cs)"

fun utf8_decode :: "string \<Rightarrow> string option" where
  "utf8_decode [] = Some []"
| "utf8_decode (b # bs) =
     (let n = (of_char b :: nat) in
      if n < 128 then map_option ((#) b) (utf8_decode bs)
      else if n = 194 \<or> n = 195 then
        (case bs of
           [] \<Rightarrow> None
         | b2 # r \<Rightarrow>
             (let m = (of_char b2 :: nat) in
              if 128 \<le> m \<and> m < 192
              then map_option ((#) (char_of ((n - 192) * 64 + (m - 128)))) (utf8_decode r)
              else None))
      else None)"

definition form_decode :: "string \<Rightarrow> string option" where
  "form_decode s = utf8_decode (form_bytes s)"

fun split_on :: "char \<Rightarrow> string \<Rightarrow> string list" where
  "split_on d [] = [[]]"
| "split_on d (c # cs) =
     (if c = d then [] # split_on d cs
      else (case split_on d cs of w # ws \<Rightarrow> (c # w) # ws | [] \<Rightarrow> [[c]]))"

definition parse_pair :: "string \<Rightarrow> string option \<times> string option" where
  "parse_pair s =
     (form_decode (takeWhile (\<lambda>c. c \<noteq> CHR ''='') s),
      form_decode (drop 1 (dropWhile (\<lambda>c. c \<noteq> CHR ''='') s)))"

text \<open>
  \<^verbatim>\<open>new URLSearchParams(search)\<close>: a leading question mark is dropped, the rest is split
  at \<^verbatim>\<open>&\<close>, empty pieces are skipped, each piece is split at its first \<^verbatim>\<open>=\<close> and both
  halves are decoded. \<open>searchParam ps k\<close> is the first pair named \<open>k\<close>: \<open>None\<close> when
  \<^verbatim>\<open>has(k)\<close> is false, and otherwise the value \<^verbatim>\<open>get(k)\<close> returns, itself \<open>None\<close> when
  the strings of this model cannot hold it. (A name they cannot hold is not \<open>k\<close>.)
\<close>

definition URLSearchParams :: "string \<Rightarrow> (string option \<times> string option) list" where
  "URLSearchParams init =
     map parse_pair
       (filter (\<lambda>s. s \<noteq> []) (split_on (CHR ''&'') (if startsWith init ''?'' then drop 1 init else init)))"

definition searchParam :: "(string option \<times> string option) list \<Rightarrow> string \<Rightarrow> string option option" where
  "searchParam ps k = map_option snd (find (\<lambda>p. fst p = Some k) ps)"

section \<open>The result extraction engine: extractCurrentPageGoogleResults\<close>

text \<open>
  The document is owned by the search site; the model takes, for each candidate container
  matched by the selector list of line 14, the answers the DOM gives to the queries that
  the function makes on it. Every combination of answers is admitted.
\<close>

datatype error = SyntaxError | TypeError

datatype level = LOG | WARN | ERROR | TABLE

record result =
  title :: string
  url :: string
  displayUrl :: string
  summary :: string

text \<open>An \<^verbatim>\<open>a\<close> element: its \<^verbatim>\<open>href\<close> property (a string, empty without the attribute) and its \<^verbatim>\<open>textContent\<close>.\<close>

record anchor =
  a_href :: string
  a_text :: string

text \<open>
  The element matched by \<^verbatim>\<open>'h3 a, a h3, div[role="heading"] a, a div[role="heading"]'\<close>:
  an anchor or a heading. \<open>hit_href\<close> is its \<^verbatim>\<open>href\<close> property, \<^verbatim>\<open>undefined\<close> on a
  heading; \<open>hit_heading\<close> is the text of the first \<^verbatim>\<open>'h3, div[role="heading"]'\<close>
  inside it, if there is one.
\<close>

record title_hit =
  hit_href :: "string option"
  hit_text :: string
  hit_heading :: "string option"

text \<open>
  The first \<^verbatim>\<open>h3\<close> of the candidate: its text, \<^verbatim>\<open>closest('a')\<close>, and the first
  following sibling whose tag is \<^verbatim>\<open>A\<close> (where the loop of lines 35 to 37 stops).
\<close>

record h3_obs =
  h3_text :: string
  h3_closest_a :: "anchor option"
  h3_sibling_a :: "anchor option"

text \<open>
  An element matched by one of the summary selectors. \<open>se_closest_link sel_url\<close> is
  whether \<^verbatim>\<open>el.closest('a[href="' + url + '"]')\<close> finds an element, or the exception
  \<^verbatim>\<open>closest\<close> throws when the selector built from the url does not parse.
\<close>

record summary_el =
  se_in_h3 :: bool
  se_in_cite :: bool
  se_closest_link :: "string \<Rightarrow> error + bool"
  se_text :: string

text \<open>
  \<open>summaryEls\<close> lists the elements matched by the nine summary selectors, selector by
  selector; it is an exception when \<^verbatim>\<open>querySelectorAll\<close> rejects one of the selectors
  (\<^verbatim>\<open>:has()\<close> is not known to every engine). \<open>cloneText\<close> is the \<^verbatim>\<open>textContent\<close> of
  the clone after the removals of line 100.
\<close>

record candidate =
  titleLinkElement :: "title_hit option"
  h3Tag :: "h3_obs option"
  generalLink :: "anchor option"
  isVideo :: bool
  videoTitleElement :: "string option"
  videoLinkElement :: "anchor option"
  citeElement :: "string option"
  summaryEls :: "error + summary_el list"
  cloneText :: string

text \<open>
  Lines 26 to 48: the heading-based strategies. The result is whether
  \<^verbatim>\<open>titleLinkElement\<close> is set, the title and the url.
\<close>

definition headingStrategies :: "candidate \<Rightarrow> bool \<times> string \<times> string option" where
  "headingStrategies c =
     (case titleLinkElement c of
        None \<Rightarrow>
          (case h3Tag c of
             None \<Rightarrow> (False, ''N/A'', Some ''N/A'')
           | Some h \<Rightarrow>
               (case h3_closest_a h of
                  Some a \<Rightarrow> (True, trim (h3_text h), Some ''N/A'')
                | None \<Rightarrow>
                    (False, trim (h3_text h),
                     (let parentAnchor =
                            (case h3_closest_a h of Some p \<Rightarrow> Some (a_href p) | None \<Rightarrow> Some ''N/A'')
                      in case h3_sibling_a h of
                           Some s \<Rightarrow> if a_href s \<noteq> [] then Some (a_href s) else parentAnchor
                         | None \<Rightarrow> parentAnchor))))
      | Some t \<Rightarrow>
          (True,
           (case hit_heading t of Some ht \<Rightarrow> trim ht | None \<Rightarrow> first_line (trim (hit_text t))),
           hit_href t))"

text \<open>Lines 50 to 59: any anchor with an absolute or redirect-wrapped href.\<close>

definition generalLinkStrategy :: "candidate \<Rightarrow> bool \<times> string \<times> string option \<Rightarrow> string \<times> string option" where
  "generalLinkStrategy c r =
     (case r of (found, t, u) \<Rightarrow>
        if \<not> found \<and> t = ''N/A'' then
          (case generalLink c of
             None \<Rightarrow> (t, u)
           | Some g \<Rightarrow>
               (let potentialTitle = first_line (trim (a_text g)) in
                (if potentialTitle \<noteq> [] \<and> length potentialTitle > 5 \<and> length potentialTitle < 150
                 then potentialTitle else t,
                 Some (a_href g))))
        else (t, u))"

text \<open>Lines 61 to 66: video results.\<close>

definition videoStrategy :: "candidate \<Rightarrow> string \<times> string option \<Rightarrow> string \<times> string option" where
  "videoStrategy c r =
     (case r of (t, u) \<Rightarrow>
        if t = ''N/A'' \<and> isVideo c then
          ((case videoTitleElement c of Some vt \<Rightarrow> trim vt | None \<Rightarrow> t),
           (case videoLinkElement c of Some a \<Rightarrow> Some (a_href a) | None \<Rightarrow> u))
        else (t, u))"

definition resolveTitleUrl :: "candidate \<Rightarrow> string \<times> string option" where
  "resolveTitleUrl c = videoStrategy c (generalLinkStrategy c (headingStrategies c))"

text \<open>
  Lines 69 to 76: the redirect link is unwrapped when the url contains \<^verbatim>\<open>/url?q=\<close>.
  \<open>rejected\<close> tells which strings the URL constructor throws on; the handler of line 75
  warns and leaves the url as it was. Where the value of \<open>q\<close> is one that the strings of
  this model cannot hold, the page is outside what the model describes, and the model
  leaves the url as it was.
\<close>

definition canonicalize :: "(string \<Rightarrow> bool) \<Rightarrow> string option \<Rightarrow> string option \<times> level list" where
  "canonicalize rejected u =
     (case u of
        None \<Rightarrow> (None, [])
      | Some s \<Rightarrow>
          if s \<noteq> [] \<and> js_includes s ''/url?q='' then
            (if rejected s then (Some s, [WARN])
             else (case searchParam (URLSearchParams (url_search s)) ''q'' of
                     Some (Some v) \<Rightarrow> (Some v, [])
                   | _ \<Rightarrow> (Some s, [])))
          else (Some s, []))"

text \<open>
  Lines 89 to 95: the summary parts. The tests of line 91 are evaluated left to right and
  stop at the first that fails, so \<^verbatim>\<open>closest\<close> with the url selector is only called for
  an element outside every \<^verbatim>\<open>h3\<close> and \<^verbatim>\<open>cite\<close>.
\<close>

fun collectSummaryParts :: "string \<Rightarrow> summary_el list \<Rightarrow> string list \<Rightarrow> error + string list" where
  "collectSummaryParts u [] parts = Inr parts"
| "collectSummaryParts u (el # els) parts =
     (if se_in_h3 el \<or> se_in_cite el then collectSummaryParts u els parts
      else (case se_closest_link el u of
              Inl e \<Rightarrow> Inl e
            | Inr inLink \<Rightarrow>
                if \<not> inLink \<and> length (trim (se_text el)) > 15
                then collectSummaryParts u els (parts @ [trim (se_text el)])
                else collectSummaryParts u els parts))"

text \<open>The sentinel of line 105 (a fixed Chinese sentence in the source, "no valid summary found").\<close>

definition NO_SUMMARY :: string where
  "NO_SUMMARY = ''[no valid summary found]''"

text \<open>Lines 96 to 106. The url is spliced into the selector as text, \<^verbatim>\<open>undefined\<close> included.\<close>

definition resolveSummary :: "candidate \<Rightarrow> string \<Rightarrow> string option \<Rightarrow> error + string" where
  "resolveSummary c t u =
     (case summaryEls c of
        Inl e \<Rightarrow> Inl e
      | Inr els \<Rightarrow>
          (case collectSummaryParts (case u of Some s \<Rightarrow> s | None \<Rightarrow> ''undefined'') els [] of
             Inl e \<Rightarrow> Inl e
           | Inr summaryParts \<Rightarrow>
               (let s = (if summaryParts \<noteq> [] then trim (collapse_ws (join_sp (dedupe [] summaryParts)))
                         else (let tmp = trim (collapse_ws (cloneText c))
                               in if length tmp > 350 then take 350 tmp @ ''...'' else tmp))
                in Inr (if trim (strip_ellipsis s) = []
                           \<or> (startsWith (toLowerCase s) (take 15 (toLowerCase t)) \<and> length t > 15)
                        then NO_SUMMARY else s))))"

text \<open>
  The body of the \<^verbatim>\<open>try\<close> block for one candidate (lines 26 to 110): the console
  messages it writes, and either the exception it throws or the record it pushes, if any.
\<close>

definition candidateBody :: "(string \<Rightarrow> bool) \<Rightarrow> candidate \<Rightarrow> level list \<times> (error + result option)" where
  "candidateBody rejected c =
     (case resolveTitleUrl c of (t, u0) \<Rightarrow>
        (case canonicalize rejected u0 of (u, logs) \<Rightarrow>
           (let d = (case citeElement c of Some ct \<Rightarrow> trim ct | None \<Rightarrow> ''N/A'') in
            (case resolveSummary c t u of
               Inl e \<Rightarrow> (logs, Inl e)
             | Inr s \<Rightarrow>
                 (logs,
                  Inr (case u of
                         None \<Rightarrow> None
                       | Some us \<Rightarrow>
                           if t \<noteq> [] \<and> t \<noteq> ''N/A'' \<and> us \<noteq> [] \<and> us \<noteq> ''N/A''
                              \<and> \<not> startsWith us ''javascript:void''
                           then Some \<lparr>title = t, url = us, displayUrl = d, summary = s\<rparr>
                           else None))))))"

text \<open>
  The \<^verbatim>\<open>forEach\<close> of lines 19 to 114 with its \<^verbatim>\<open>try\<close>/\<^verbatim>\<open>catch\<close>: the accumulator is
  the \<^verbatim>\<open>results\<close> array with the console messages written so far. A candidate whose
  body throws writes one error message and pushes nothing.
\<close>

fun forEachCandidate :: "(string \<Rightarrow> bool) \<Rightarrow> candidate list \<Rightarrow> result list \<times> level list \<Rightarrow> result list \<times> level list" where
  "forEachCandidate rejected [] acc = acc"
| "forEachCandidate rejected (c # cs) acc =
     forEachCandidate rejected cs
       (case candidateBody rejected c of
          (logs, Inl e) \<Rightarrow> (fst acc, snd acc @ logs @ [ERROR])
        | (logs, Inr None) \<Rightarrow> (fst acc, snd acc @ logs)
        | (logs, Inr (Some r)) \<Rightarrow> (fst acc @ [r], snd acc @ logs))"

definition extractCurrentPageGoogleResults :: "(string \<Rightarrow> bool) \<Rightarrow> candidate list \<Rightarrow> result list \<times> level list" where
  "extractCurrentPageGoogleResults rejected searchResultElements =
     forEachCandidate rejected searchResultElements ([], [LOG])"

section \<open>The workflow state, the session store and the page\<close>

text \<open>
  \<open>UNKNOWN_PHASE\<close> stands for any value of \<^verbatim>\<open>currentPhase\<close> other than the four
  names the controller compares it with (a stored object need not carry the field).
\<close>

datatype phase = INITIATE_SEARCH | ON_GOOGLE_HOME | SCRAPING_RESULTS | FINISHED | UNKNOWN_PHASE

text \<open>
  The record is a workflow state with all its fields, as every state the script writes
  has: \<^verbatim>\<open>allResults\<close> is an array, and the two page numbers are integers. On integers
  below \<open>2^53\<close> the increment of line 288 is exact; statements about page counting are
  made for that range. A stored object of another shape is outside the model.
\<close>

record state =
  keyword :: "string option"
  currentPageNum :: int
  allResults :: "result list"
  currentPhase :: phase
  maxPages :: int

text \<open>
  What \<^verbatim>\<open>sessionStorage.getItem('googleFullSearchState')\<close> and \<^verbatim>\<open>JSON.parse\<close> give:
  \<open>Absent\<close> is \<^verbatim>\<open>null\<close> or the empty string (both falsy at line 137); \<open>Corrupt\<close> is a
  text on which line 138 or the property read of line 140 throws; \<open>Stored p\<close> is a text
  that parses to the object \<open>p\<close> (a value without a \<^verbatim>\<open>keyword\<close> property is a state
  whose keyword is \<open>None\<close>). \<^verbatim>\<open>JSON.stringify\<close> followed by \<^verbatim>\<open>JSON.parse\<close> is taken
  to give the state back.
\<close>

datatype store = Absent | Corrupt | Stored state

record button =
  btn_name :: string
  aria_label :: "string option"

datatype control = SearchButton button | NextPageButton

text \<open>
  What one invocation does to the world outside, in order: console output, writes and
  removals of the session key, the assignment to \<^verbatim>\<open>window.location.href\<close>, the text put
  into the search box and clicks. The assignment and the clicks leave the page.
\<close>

datatype event =
    Console level
  | SetItem state
  | RemoveItem
  | AssignLocation
  | SetInputValue "string option"
  | Click control

record world =
  storage :: store
  events :: "event list"

text \<open>
  The page the invocation runs on: \<^verbatim>\<open>window.location\<close>, the answers of the document to
  the queries of lines 230, 231, 241 and 285, the candidate containers, and the strings
  the URL constructor rejects. \<open>nextPageButton\<close> is the \<^verbatim>\<open>href\<close> of the element found, if
  one is found.
\<close>

record page =
  hostname :: string
  pathname :: string
  href :: string
  searchInput :: bool
  searchButton :: "button option"
  allButtons :: "button list"
  nextPageButton :: "string option"
  searchResultElements :: "candidate list"
  urlRejected :: "string \<Rightarrow> bool"

definition isNavigation :: "event \<Rightarrow> bool" where
  "isNavigation e = (case e of AssignLocation \<Rightarrow> True | Click c \<Rightarrow> True | _ \<Rightarrow> False)"

section \<open>The controller: startFullGoogleSearchAutomation\<close>

definition MAX_PAGES_TO_SCRAPE :: int where
  "MAX_PAGES_TO_SCRAPE = 10"

definition console :: "level \<Rightarrow> world \<Rightarrow> world" where
  "console l w = w\<lparr>events := events w @ [Console l]\<rparr>"

definition removeItem :: "world \<Rightarrow> world" where
  "removeItem w = w\<lparr>storage := Absent, events := events w @ [RemoveItem]\<rparr>"

definition emit :: "event \<Rightarrow> world \<Rightarrow> world" where
  "emit e w = w\<lparr>events := events w @ [e]\<rparr>"

text \<open>Lines 174 to 176.\<close>

definition saveState :: "state \<Rightarrow> world \<Rightarrow> world" where
  "saveState st w = w\<lparr>storage := Stored st, events := events w @ [SetItem st]\<rparr>"

text \<open>Lines 178 to 185.\<close>

definition displayAndClearFinalResults :: "state \<Rightarrow> world \<Rightarrow> world" where
  "displayAndClearFinalResults st w =
     removeItem (console LOG (console LOG (console TABLE (console LOG (console LOG w)))))"

text \<open>Lines 266 to 271: the merge of a page's records into \<^verbatim>\<open>state.allResults\<close>.\<close>

fun mergeResults :: "result list \<Rightarrow> result list \<Rightarrow> result list" where
  "mergeResults existing [] = existing"
| "mergeResults existing (newItem # rest) =
     mergeResults
       (if list_ex (\<lambda>existingItem. url existingItem = url newItem \<and> title existingItem = title newItem) existing
        then existing else existing @ [newItem])
       rest"

text \<open>Lines 238 to 248: the button that is clicked.\<close>

definition feelingLucky :: "button \<Rightarrow> bool" where
  "feelingLucky b =
     (btn_name b = ''btnI''
      \<or> (case aria_label b of
           None \<Rightarrow> False
         | Some l \<Rightarrow> l \<noteq> [] \<and> js_includes (toLowerCase l) ''feeling lucky''))"

definition actualSearchButton :: "page \<Rightarrow> button \<Rightarrow> button" where
  "actualSearchButton pg b =
     (if feelingLucky b then
        (case find (\<lambda>btn. \<not> feelingLucky btn) (allButtons pg) of Some btn \<Rightarrow> btn | None \<Rightarrow> b)
      else b)"

text \<open>Lines 226 to 257.\<close>

definition processGoogleHomePage :: "page \<Rightarrow> state \<Rightarrow> world \<Rightarrow> state \<times> world" where
  "processGoogleHomePage pg st w =
     (let w1 = console LOG w in
      case searchButton pg of
        Some b \<Rightarrow>
          if searchInput pg then
            (let w2 = console LOG (emit (SetInputValue (keyword st)) w1);
                 w3 = console LOG w2;
                 st' = st\<lparr>currentPhase := SCRAPING_RESULTS\<rparr>
             in (st', emit (Click (SearchButton (actualSearchButton pg b))) (saveState st' w3)))
          else (st, removeItem (console ERROR w1))
      | None \<Rightarrow> (st, removeItem (console ERROR w1)))"

text \<open>Lines 259 to 299.\<close>

definition processSearchResultsPage :: "page \<Rightarrow> state \<Rightarrow> world \<Rightarrow> state \<times> world" where
  "processSearchResultsPage pg st w =
     (let w1 = console LOG w;
          extracted = extractCurrentPageGoogleResults (urlRejected pg) (searchResultElements pg);
          currentPageData = fst extracted;
          w2 = console LOG (w1\<lparr>events := events w1 @ map Console (snd extracted)\<rparr>);
          st1 = (if currentPageData \<noteq> []
                 then st\<lparr>allResults := mergeResults (allResults st) currentPageData\<rparr> else st);
          w3 = (if currentPageData \<noteq> [] then console TABLE w2 else console LOG w2)
      in if currentPageNum st1 \<ge> maxPages st1 then
           (let st2 = st1\<lparr>currentPhase := FINISHED\<rparr>
            in (st2, displayAndClearFinalResults st2 (saveState st2 (console LOG w3))))
         else
           (case nextPageButton pg of
              Some h \<Rightarrow>
                if h \<noteq> [] then
                  (let st2 = st1\<lparr>currentPageNum := currentPageNum st1 + 1\<rparr>
                   in (st2, emit (Click NextPageButton) (saveState st2 (console LOG w3))))
                else
                  (let st2 = st1\<lparr>currentPhase := FINISHED\<rparr>
                   in (st2, displayAndClearFinalResults st2 (saveState st2 (console LOG w3))))
            | None \<Rightarrow>
                (let st2 = st1\<lparr>currentPhase := FINISHED\<rparr>
                 in (st2, displayAndClearFinalResults st2 (saveState st2 (console LOG w3))))))"

text \<open>Lines 126 to 132: the state a call starts from.\<close>

definition initialState :: "string option \<Rightarrow> state" where
  "initialState kw =
     \<lparr>keyword = kw, currentPageNum = 1, allResults = [], currentPhase = INITIATE_SEARCH,
      maxPages = MAX_PAGES_TO_SCRAPE\<rparr>"

text \<open>
  Lines 135 to 171: the state is loaded from the session store. The result is \<open>None\<close>
  where the function returns (lines 157, 161 and 168), and the state to go on with
  otherwise.
\<close>

definition loadState :: "string option \<Rightarrow> world \<Rightarrow> state option \<times> world" where
  "loadState kw w =
     (let st0 = initialState kw in
      case storage w of
        Absent \<Rightarrow> if \<not> truthy kw then (None, console ERROR w) else (Some st0, w)
      | Corrupt \<Rightarrow>
          (let w1 = console ERROR w
           in if \<not> truthy kw then (None, console ERROR w1) else (Some st0, w1))
      | Stored parsedState \<Rightarrow>
          (let r = (if truthy kw \<and> keyword parsedState = kw then (parsedState, console LOG w)
                    else if truthy kw then
                      (st0\<lparr>keyword := kw, currentPageNum := 1, allResults := [],
                          currentPhase := INITIATE_SEARCH\<rparr>, console LOG w)
                    else if \<not> truthy kw \<and> truthy (keyword parsedState) then (parsedState, console LOG w)
                    else (st0, w))
           in if \<not> truthy (keyword (fst r)) then (None, removeItem (console ERROR (snd r)))
              else (Some (fst r), snd r)))"

text \<open>Lines 188 to 224: the phase table.\<close>

definition runPhase :: "page \<Rightarrow> state \<Rightarrow> world \<Rightarrow> state \<times> world" where
  "runPhase pg st w0 =
     (let w = console LOG w0 in
      if currentPhase st = INITIATE_SEARCH then
        (if \<not> js_includes (hostname pg) ''google.com'' \<or> pathname pg \<noteq> ''/'' then
           (let st' = st\<lparr>currentPhase := ON_GOOGLE_HOME\<rparr>
            in (st', emit AssignLocation (saveState st' (console LOG w))))
         else
           (let st' = st\<lparr>currentPhase := ON_GOOGLE_HOME\<rparr>
            in processGoogleHomePage pg st' (saveState st' w)))
      else if currentPhase st = ON_GOOGLE_HOME \<and> js_includes (hostname pg) ''google.com''
              \<and> (pathname pg = ''/'' \<or> pathname pg = ''/webhp'') then
        processGoogleHomePage pg st w
      else if currentPhase st = SCRAPING_RESULTS \<and> js_includes (href pg) ''/search?q='' then
        processSearchResultsPage pg st w
      else if currentPhase st = FINISHED then
        (st, displayAndClearFinalResults st w)
      else
        (let w1 = console WARN w in
         if truthy (keyword st) then
           (let st' = st\<lparr>currentPhase := INITIATE_SEARCH, currentPageNum := 1, allResults := []\<rparr>
            in (st', emit AssignLocation (saveState st' (console LOG w1))))
         else (st, removeItem w1)))"

definition startFullGoogleSearchAutomation :: "string option \<Rightarrow> page \<Rightarrow> world \<Rightarrow> state \<times> world" where
  "startFullGoogleSearchAutomation kw pg w =
     (case loadState kw w of
        (None, w') \<Rightarrow> (initialState kw, w')
      | (Some st, w') \<Rightarrow> runPhase pg st w')"

section \<open>Notions used to state the properties\<close>

text \<open>Two records are the same entry when they agree on title and url.\<close>

definition recordKey :: "result \<Rightarrow> string \<times> string" where
  "recordKey r = (title r, url r)"

definition uniqueResults :: "result list \<Rightarrow> bool" where
  "uniqueResults rs = distinct (map recordKey rs)"

definition storeUnique :: "store \<Rightarrow> bool" where
  "storeUnique \<sigma> = (case \<sigma> of Stored s \<Rightarrow> uniqueResults (allResults s) | _ \<Rightarrow> True)"

definition worldUnique :: "world \<Rightarrow> bool" where
  "worldUnique w =
     (storeUnique (storage w) \<and> (\<forall>s. SetItem s \<in> set (events w) \<longrightarrow> uniqueResults (allResults s)))"

text \<open>
  The contents of the session store that a run can produce: it starts empty, or with a
  workflow state that has no results yet, and every call of the controller, with any
  keyword and on any page, takes it to the next contents.
\<close>

inductive reachableStore :: "store \<Rightarrow> bool" where
  fresh_absent: "reachableStore Absent"
| fresh_stored: "allResults s = [] \<Longrightarrow> reachableStore (Stored s)"
| invoke: "reachableStore \<sigma> \<Longrightarrow>
     reachableStore (storage (snd (startFullGoogleSearchAutomation kw pg \<lparr>storage = \<sigma>, events = []\<rparr>)))"

text \<open>
  A trace is checkpointed for a state when every navigation in it comes after a write of
  that state: \<open>checkpointed st saved\<close> scans the trace, \<open>saved\<close> telling whether the write
  has been seen. \<open>checkpointedTrace\<close> adds that the trace holds at most one navigation.
\<close>

fun checkpointed :: "state \<Rightarrow> bool \<Rightarrow> event list \<Rightarrow> bool" where
  "checkpointed st saved [] = True"
| "checkpointed st saved (e # es) =
     (if isNavigation e then saved \<and> checkpointed st saved es
      else checkpointed st (saved \<or> SetItem st = e) es)"

definition checkpointedTrace :: "state \<Rightarrow> event list \<Rightarrow> bool" where
  "checkpointedTrace st tr = (length (filter isNavigation tr) \<le> 1 \<and> checkpointed st False tr)"

text \<open>
  A call executes the scraping phase when the state it loads is in phase
  \<open>SCRAPING_RESULTS\<close> and the location passes the test of line 206. \<open>scrapingRun\<close> counts
  the consecutive calls that execute the scraping phase, each starting from the store the
  previous one left; the count stops at the first call that does something else (the
  workflow has finished, or it is aborted or restarted).
\<close>

definition executesScraping :: "string option \<Rightarrow> page \<Rightarrow> store \<Rightarrow> bool" where
  "executesScraping kw pg \<sigma> =
     (case fst (loadState kw \<lparr>storage = \<sigma>, events = []\<rparr>) of
        None \<Rightarrow> False
      | Some st \<Rightarrow> currentPhase st = SCRAPING_RESULTS \<and> js_includes (href pg) ''/search?q='')"

fun scrapingRun :: "store \<Rightarrow> (string option \<times> page) list \<Rightarrow> nat" where
  "scrapingRun \<sigma> [] = 0"
| "scrapingRun \<sigma> ((kw, pg) # calls) =
     (if executesScraping kw pg \<sigma>
      then Suc (scrapingRun (storage (snd (startFullGoogleSearchAutomation kw pg \<lparr>storage = \<sigma>, events = []\<rparr>))) calls)
      else 0)"

text \<open>
  \<open>scrapingTotal\<close> counts every call that executes the scraping phase, restarts or not,
  up to and including the first call that ends in phase \<open>FINISHED\<close>; its second
  component tells whether that call was reached.
\<close>

fun scrapingTotal :: "store \<Rightarrow> (string option \<times> page) list \<Rightarrow> nat \<times> bool" where
  "scrapingTotal \<sigma> [] = (0, False)"
| "scrapingTotal \<sigma> ((kw, pg) # calls) =
     (let r = startFullGoogleSearchAutomation kw pg \<lparr>storage = \<sigma>, events = []\<rparr>;
          n = (if executesScraping kw pg \<sigma> then 1 else 0)
      in if currentPhase (fst r) = FINISHED then (n, True)
         else (case scrapingTotal (storage (snd r)) calls of (m, fin) \<Rightarrow> (n + m, fin)))"

text \<open>
  The contents of the session store in a workflow that the script itself started: the
  store is empty at first and only calls of the controller change it. In such a store the
  page bound is the constant of line 124 and the page number lies between 1 and the bound;
  outside the scraping phase the page number is 1 and there are no results yet.
\<close>

inductive startedStore :: "store \<Rightarrow> bool" where
  empty: "startedStore Absent"
| call: "startedStore \<sigma> \<Longrightarrow>
     startedStore (storage (snd (startFullGoogleSearchAutomation kw pg \<lparr>storage = \<sigma>, events = []\<rparr>)))"

definition scriptState :: "state \<Rightarrow> bool" where
  "scriptState s =
     (maxPages s = MAX_PAGES_TO_SCRAPE \<and> 1 \<le> currentPageNum s \<and> currentPageNum s \<le> MAX_PAGES_TO_SCRAPE
      \<and> (currentPhase s = SCRAPING_RESULTS
          \<or> ((currentPhase s = INITIATE_SEARCH \<or> currentPhase s = ON_GOOGLE_HOME)
              \<and> currentPageNum s = 1 \<and> allResults s = [])))"

definition scriptStore :: "store \<Rightarrow> bool" where
  "scriptStore \<sigma> = (case \<sigma> of Stored s \<Rightarrow> scriptState s | _ \<Rightarrow> True)"

definition restartedStore :: "store \<Rightarrow> bool" where
  "restartedStore \<sigma> = (case \<sigma> of Stored s \<Rightarrow> currentPageNum s = 1 \<and> allResults s = [] | _ \<Rightarrow> True)"

text \<open>
  The location does not match what the phase expects: the tests of lines 204 and 206 fail
  for a state in the home or in the scraping phase.
\<close>

definition phaseMismatch :: "phase \<Rightarrow> page \<Rightarrow> bool" where
  "phaseMismatch ph pg =
     ((ph = ON_GOOGLE_HOME
         \<and> \<not> (js_includes (hostname pg) ''google.com'' \<and> (pathname pg = ''/'' \<or> pathname pg = ''/webhp'')))
      \<or> (ph = SCRAPING_RESULTS \<and> \<not> js_includes (href pg) ''/search?q=''))"




text \<open>
  What one candidate contributes to the extraction: the record it pushes, if any, and the
  console messages it writes, the error message of the handler of line 112 included.
\<close>

definition pushedBy :: "(string \<Rightarrow> bool) \<Rightarrow> candidate \<Rightarrow> result list" where
  "pushedBy rejected c = (case snd (candidateBody rejected c) of Inr (Some r) \<Rightarrow> [r] | _ \<Rightarrow> [])"

definition loggedBy :: "(string \<Rightarrow> bool) \<Rightarrow> candidate \<Rightarrow> level list" where
  "loggedBy rejected c =
     fst (candidateBody rejected c) @ (case snd (candidateBody rejected c) of Inl e \<Rightarrow> [ERROR] | _ \<Rightarrow> [])"

section \<open>Example pages\<close>

text \<open>
  A candidate of the organic kind, \<^verbatim>\<open><div class="g"><h3><a href="u">t</a></h3></div>\<close>:
  the title element is the anchor inside the heading, with text \<open>t\<close> and href \<open>u\<close>. A
  results page with given candidates and next-page control, and a persisted state in the
  scraping phase.
\<close>

definition organicCandidate :: "string \<Rightarrow> string \<Rightarrow> candidate" where
  "organicCandidate t u =
     \<lparr>titleLinkElement = Some \<lparr>hit_href = Some u, hit_text = t, hit_heading = None\<rparr>,
      h3Tag = Some \<lparr>h3_text = t, h3_closest_a = None, h3_sibling_a = None\<rparr>,
      generalLink = Some \<lparr>a_href = u, a_text = t\<rparr>, isVideo = False, videoTitleElement = None,
      videoLinkElement = None, citeElement = None, summaryEls = Inr [], cloneText = []\<rparr>"

definition resultsPage :: "candidate list \<Rightarrow> string option \<Rightarrow> page" where
  "resultsPage cs nxt =
     \<lparr>hostname = ''www.google.com'', pathname = ''/search'',
      href = ''https://www.google.com/search?q=isabelle'',
      searchInput = True, searchButton = Some \<lparr>btn_name = [], aria_label = Some ''Search''\<rparr>,
      allButtons = [\<lparr>btn_name = [], aria_label = Some ''Search''\<rparr>], nextPageButton = nxt,
      searchResultElements = cs, urlRejected = (\<lambda>u. False)\<rparr>"

definition scrapingState :: "int \<Rightarrow> int \<Rightarrow> result list \<Rightarrow> state" where
  "scrapingState n m rs =
     \<lparr>keyword = Some ''isabelle'', currentPageNum = n, allResults = rs,
      currentPhase = SCRAPING_RESULTS, maxPages = m\<rparr>"

text \<open>The search home page, with or without its query input and submit control, and a state in the home phase.\<close>

definition homePage :: "bool \<Rightarrow> button option \<Rightarrow> page" where
  "homePage inp btn =
     \<lparr>hostname = ''www.google.com'', pathname = ''/'', href = ''https://www.google.com/'',
      searchInput = inp, searchButton = btn, allButtons = [], nextPageButton = None,
      searchResultElements = [], urlRejected = (\<lambda>u. False)\<rparr>"

definition homeState :: state where
  "homeState =
     \<lparr>keyword = Some ''isabelle'', currentPageNum = 1, allResults = [],
      currentPhase = ON_GOOGLE_HOME, maxPages = 10\<rparr>"

text \<open>
  A candidate with no heading at all, \<^verbatim>\<open><div class="g"><a href="...">...</a></div>\<close>:
  only the anchor that the fallback of lines 50 to 59 finds.
\<close>

definition fallbackCandidate :: "anchor \<Rightarrow> candidate" where
  "fallbackCandidate g =
     \<lparr>titleLinkElement = None, h3Tag = None, generalLink = Some g, isVideo = False,
      videoTitleElement = None, videoLinkElement = None, citeElement = None,
      summaryEls = Inr [], cloneText = []\<rparr>"

text \<open>
  The home page with its controls, and a run of fourteen calls, each with the stored
  keyword as the resumption hook passes it: the search is submitted, nine result pages
  are scraped, the tenth page load has a location without \<^verbatim>\<open>/search?q=\<close> (the query is
  not the first parameter), so the controller restarts; the search is submitted again and
  two more pages are scraped, the second without next-page control.
\<close>

definition searchHomePage :: page where
  "searchHomePage = homePage True (Some \<lparr>btn_name = ''btnK'', aria_label = Some ''Google Search''\<rparr>)"

definition restartRun :: "(string option \<times> page) list" where
  "restartRun =
     (Some ''isabelle'', searchHomePage)
     # replicate 9 (Some ''isabelle'', resultsPage [] (Some ''https://www.google.com/search?q=isabelle&start=10''))
     @ [(Some ''isabelle'',
          (resultsPage [] None)\<lparr>href := ''https://www.google.com/search?sca_esv=1&q=isabelle&start=90''\<rparr>),
        (Some ''isabelle'', searchHomePage),
        (Some ''isabelle'', resultsPage [] (Some ''https://www.google.com/search?q=isabelle&start=10'')),
        (Some ''isabelle'', resultsPage [] None)]"


section \<open>The title of the general link fallback\<close>

text \<open>
  Claim C9 says that the fallback strategy accepts the anchor's visible text as title
  exactly when its length is within 5 to 150 characters. The bounds of line 55 are strict:
  a text of five characters is within that range and is not accepted.
\<close>

theorem fallback_title_counterexample:
  "length (a_text \<lparr>a_href = ''https://example.com/'', a_text = ''Hello''\<rparr>) = 5
   \<and> titleLinkElement (fallbackCandidate \<lparr>a_href = ''https://example.com/'', a_text = ''Hello''\<rparr>) = None
   \<and> h3Tag (fallbackCandidate \<lparr>a_href = ''https://example.com/'', a_text = ''Hello''\<rparr>) = None
   \<and> resolveTitleUrl (fallbackCandidate \<lparr>a_href = ''https://example.com/'', a_text = ''Hello''\<rparr>)
       = (''N/A'', Some ''https://example.com/'')"
  by code_simp

text \<open>
  Claim C9 as amended. In the fallback strategy, tried when no title element was found
  and the title is still unset, the url is the anchor's href, and the first line of the
  anchor's trimmed text is accepted as title exactly when its length is greater than 5
  and less than 150 (6 to 149 characters); an accepted title is the title the candidate
  resolves to, and without it a candidate that is not a video result resolves to no title.
\<close>

theorem fallback_title_range:
  assumes "headingStrategies c = (False, ''N/A'', u0)" "generalLink c = Some g"
  shows "generalLinkStrategy c (headingStrategies c)
      = (if 5 < length (first_line (trim (a_text g))) \<and> length (first_line (trim (a_text g))) < 150
         then first_line (trim (a_text g)) else ''N/A'',
         Some (a_href g))
    \<and> (5 < length (first_line (trim (a_text g))) \<and> length (first_line (trim (a_text g))) < 150
         \<longrightarrow> fst (resolveTitleUrl c) = first_line (trim (a_text g)))
    \<and> (\<not> isVideo c \<and> \<not> (5 < length (first_line (trim (a_text g))) \<and> length (first_line (trim (a_text g))) < 150)
         \<longrightarrow> fst (resolveTitleUrl c) = ''N/A'')"
proof -
  let ?p = "first_line (trim (a_text g))"
  have g: "generalLinkStrategy c (headingStrategies c)
      = (if 5 < length ?p \<and> length ?p < 150 then ?p else ''N/A'', Some (a_href g))"
    using assms by (auto simp: generalLinkStrategy_def Let_def)
  have "?p \<noteq> ''N/A''" if "5 < length ?p"
    using that by auto
  then show ?thesis
    unfolding resolveTitleUrl_def g by (auto simp: videoStrategy_def)
qed

theorem fallback_title_range_witness:
  "headingStrategies (fallbackCandidate \<lparr>a_href = ''https://example.com/'', a_text = ''  Example Domain  ''\<rparr>)
      = (False, ''N/A'', Some ''N/A'')
   \<and> generalLinkStrategy (fallbackCandidate \<lparr>a_href = ''https://example.com/'', a_text = ''  Example Domain  ''\<rparr>)
        (headingStrategies (fallbackCandidate \<lparr>a_href = ''https://example.com/'', a_text = ''  Example Domain  ''\<rparr>))
      = (''Example Domain'', Some ''https://example.com/'')
   \<and> fst (resolveTitleUrl (fallbackCandidate \<lparr>a_href = ''https://example.com/'', a_text = ''  Example Domain  ''\<rparr>))
      = ''Example Domain''"
proof -
  let ?g = "\<lparr>a_href = ''https://example.com/'', a_text = ''  Example Domain  ''\<rparr>"
  have h: "headingStrategies (fallbackCandidate ?g) = (False, ''N/A'', Some ''N/A'')"
    by code_simp
  have l: "generalLink (fallbackCandidate ?g) = Some ?g"
    by (simp add: fallbackCandidate_def)
  have p: "first_line (trim (a_text ?g)) = ''Example Domain''"
    by code_simp
  have n: "5 < length (first_line (trim (a_text ?g))) \<and> length (first_line (trim (a_text ?g))) < 150"
    unfolding p by simp
  note t = fallback_title_range [OF h l]
  from t [THEN conjunct1] n p
  have a: "generalLinkStrategy (fallbackCandidate ?g) (headingStrategies (fallbackCandidate ?g))
      = (''Example Domain'', Some ''https://example.com/'')"
    by simp
  from t [THEN conjunct2, THEN conjunct1, rule_format, OF n] p
  have b: "fst (resolveTitleUrl (fallbackCandidate ?g)) = ''Example Domain''"
    by simp
  from h a b show ?thesis by (intro conjI)
qed

section \<open>Unwrapping redirect links\<close>


lemma hex_val_bound: "hex_val x = Some h \<Longrightarrow> h < 16"
  by (auto simp: hex_val_def Let_def split: if_splits)


























section \<open>One failing candidate does not disturb the others\<close>

lemma forEachCandidate_eq:
  "forEachCandidate rejected cs acc
     = (fst acc @ concat (map (pushedBy rejected) cs), snd acc @ concat (map (loggedBy rejected) cs))"
proof (induction cs arbitrary: acc)
  case Nil
  show ?case by simp
next
  case (Cons c cs)
  obtain logs out where b: "candidateBody rejected c = (logs, out)" by (cases "candidateBody rejected c")
  show ?case
  proof (cases out)
    case (Inl e)
    with b show ?thesis by (simp add: Cons.IH pushedBy_def loggedBy_def)
  next
    case (Inr ro)
    with b show ?thesis by (cases ro) (simp_all add: Cons.IH pushedBy_def loggedBy_def)
  qed
qed

lemma extract_eq:
  "extractCurrentPageGoogleResults rejected cs
     = (concat (map (pushedBy rejected) cs), LOG # concat (map (loggedBy rejected) cs))"
  by (simp add: extractCurrentPageGoogleResults_def forEachCandidate_eq)

text \<open>
  Claim C10. The extraction returns a list for every document: an exception in the body of
  one candidate is caught by that candidate's own handler. The records extracted are those
  of the candidates before, then the record of the candidate itself if its body pushes
  one, then those of the candidates after; a candidate whose body throws drops only its
  own record, leaves the records of all other candidates as they are without it, and
  writes one error message to the console.
\<close>

theorem extraction_isolates_failures:
  "fst (extractCurrentPageGoogleResults rejected (before @ c # after))
     = fst (extractCurrentPageGoogleResults rejected before)
       @ (case snd (candidateBody rejected c) of Inr (Some r) \<Rightarrow> [r] | _ \<Rightarrow> [])
       @ fst (extractCurrentPageGoogleResults rejected after)
   \<and> (\<forall>e. snd (candidateBody rejected c) = Inl e \<longrightarrow>
         fst (extractCurrentPageGoogleResults rejected (before @ c # after))
           = fst (extractCurrentPageGoogleResults rejected (before @ after))
       \<and> snd (extractCurrentPageGoogleResults rejected (before @ c # after))
           = snd (extractCurrentPageGoogleResults rejected before)
             @ fst (candidateBody rejected c) @ [ERROR]
             @ tl (snd (extractCurrentPageGoogleResults rejected after)))"
  by (simp add: extract_eq pushedBy_def loggedBy_def)

theorem extraction_isolates_failures_witness:
  "snd (candidateBody (\<lambda>u. False)
       ((organicCandidate ''Broken'' ''https://broken.example/'')\<lparr>summaryEls := Inl SyntaxError\<rparr>))
     = Inl SyntaxError
   \<and> fst (extractCurrentPageGoogleResults (\<lambda>u. False)
       ([organicCandidate ''Isabelle'' ''https://isabelle.in.tum.de/'']
        @ (organicCandidate ''Broken'' ''https://broken.example/'')\<lparr>summaryEls := Inl SyntaxError\<rparr>
        # [organicCandidate ''Archive of Formal Proofs'' ''https://www.isa-afp.org/'']))
     = [\<lparr>title = ''Isabelle'', url = ''https://isabelle.in.tum.de/'', displayUrl = ''N/A'', summary = NO_SUMMARY\<rparr>,
        \<lparr>title = ''Archive of Formal Proofs'', url = ''https://www.isa-afp.org/'', displayUrl = ''N/A'', summary = NO_SUMMARY\<rparr>]
   \<and> snd (extractCurrentPageGoogleResults (\<lambda>u. False)
       ([organicCandidate ''Isabelle'' ''https://isabelle.in.tum.de/'']
        @ (organicCandidate ''Broken'' ''https://broken.example/'')\<lparr>summaryEls := Inl SyntaxError\<rparr>
        # [organicCandidate ''Archive of Formal Proofs'' ''https://www.isa-afp.org/'']))
     = [LOG, ERROR]"
proof -
  let ?bad = "(organicCandidate ''Broken'' ''https://broken.example/'')\<lparr>summaryEls := Inl SyntaxError\<rparr>"
  let ?before = "[organicCandidate ''Isabelle'' ''https://isabelle.in.tum.de/'']"
  let ?after = "[organicCandidate ''Archive of Formal Proofs'' ''https://www.isa-afp.org/'']"
  have throws: "snd (candidateBody (\<lambda>u. False) ?bad) = Inl SyntaxError"
    by code_simp
  have others: "fst (extractCurrentPageGoogleResults (\<lambda>u. False) (?before @ ?after))
     = [\<lparr>title = ''Isabelle'', url = ''https://isabelle.in.tum.de/'', displayUrl = ''N/A'', summary = NO_SUMMARY\<rparr>,
        \<lparr>title = ''Archive of Formal Proofs'', url = ''https://www.isa-afp.org/'', displayUrl = ''N/A'', summary = NO_SUMMARY\<rparr>]"
    by code_simp
  have logs: "snd (extractCurrentPageGoogleResults (\<lambda>u. False) ?before)
             @ fst (candidateBody (\<lambda>u. False) ?bad) @ [ERROR]
             @ tl (snd (extractCurrentPageGoogleResults (\<lambda>u. False) ?after)) = [LOG, ERROR]"
    by code_simp
  note t = extraction_isolates_failures [of "\<lambda>u. False" ?before ?bad ?after,
      THEN conjunct2, rule_format, OF throws]
  from t [THEN conjunct1] others t [THEN conjunct2] logs throws
  show ?thesis by (simp only:)
qed

section \<open>The merge of a page's records\<close>

lemma some_iff_key:
  "list_ex (\<lambda>e. url e = url n \<and> title e = title n) xs \<longleftrightarrow> recordKey n \<in> recordKey ` set xs"
  by (induction xs) (auto simp: recordKey_def)

lemma mergeResults_append: "\<exists>zs. mergeResults xs ys = xs @ zs"
proof (induction ys arbitrary: xs)
  case Nil
  then show ?case by simp
next
  case (Cons y ys)
  show ?case
  proof (cases "list_ex (\<lambda>e. url e = url y \<and> title e = title y) xs")
    case True
    then show ?thesis using Cons.IH [of xs] by simp
  next
    case False
    from Cons.IH [of "xs @ [y]"] obtain zs where "mergeResults (xs @ [y]) ys = (xs @ [y]) @ zs" ..
    with False show ?thesis by simp
  qed
qed

lemma mergeResults_length: "length xs \<le> length (mergeResults xs ys)"
  using mergeResults_append [of xs ys] by auto

lemma mergeResults_take: "take (length xs) (mergeResults xs ys) = xs"
  using mergeResults_append [of xs ys] by auto

lemma mergeResults_count:
  "k \<in> recordKey ` set xs \<Longrightarrow>
   length (filter (\<lambda>e. recordKey e = k) (mergeResults xs ys)) = length (filter (\<lambda>e. recordKey e = k) xs)"
proof (induction ys arbitrary: xs)
  case Nil
  then show ?case by simp
next
  case (Cons y ys)
  show ?case
  proof (cases "recordKey y \<in> recordKey ` set xs")
    case True
    then show ?thesis using Cons by (simp add: some_iff_key)
  next
    case False
    with Cons.prems have neq: "recordKey y \<noteq> k" by auto
    have "k \<in> recordKey ` set (xs @ [y])" using Cons.prems by auto
    from Cons.IH [OF this] neq False show ?thesis by (simp add: some_iff_key)
  qed
qed

lemma mergeResults_unique:
  "uniqueResults xs \<Longrightarrow> uniqueResults (mergeResults xs ys)"
proof (induction ys arbitrary: xs)
  case Nil
  then show ?case by simp
next
  case (Cons y ys)
  show ?case
  proof (cases "recordKey y \<in> recordKey ` set xs")
    case True
    then show ?thesis using Cons by (simp add: some_iff_key)
  next
    case False
    then have "uniqueResults (xs @ [y])" using Cons.prems by (auto simp: uniqueResults_def)
    from Cons.IH [OF this] False show ?thesis by (simp add: some_iff_key)
  qed
qed

text \<open>
  Claim C4 (merge monotonicity). For every prior \<open>allResults\<close> and every list of newly
  extracted records, the merge of lines 266 to 271 never makes \<open>allResults\<close> shorter: the
  prior collection is kept as it is, as the front of the result. A record whose
  (title, url) pair already occurs in the prior collection is never appended as a second
  entry: the number of entries with that pair is the same after the merge as before.
\<close>

theorem merge_monotone:
  "length existing \<le> length (mergeResults existing new)
   \<and> take (length existing) (mergeResults existing new) = existing
   \<and> (\<forall>r. recordKey r \<in> recordKey ` set existing \<longrightarrow>
        length (filter (\<lambda>e. recordKey e = recordKey r) (mergeResults existing new))
          = length (filter (\<lambda>e. recordKey e = recordKey r) existing))"
  by (simp add: mergeResults_length mergeResults_take mergeResults_count)

theorem merge_monotone_witness:
  "recordKey \<lparr>title = ''A'', url = ''https://a.example/'', displayUrl = ''a'', summary = ''new''\<rparr>
     \<in> recordKey ` set [\<lparr>title = ''A'', url = ''https://a.example/'', displayUrl = ''N/A'', summary = ''old''\<rparr>]
   \<and> length (filter (\<lambda>e. recordKey e
           = recordKey \<lparr>title = ''A'', url = ''https://a.example/'', displayUrl = ''a'', summary = ''new''\<rparr>)
        (mergeResults
           [\<lparr>title = ''A'', url = ''https://a.example/'', displayUrl = ''N/A'', summary = ''old''\<rparr>]
           [\<lparr>title = ''A'', url = ''https://a.example/'', displayUrl = ''a'', summary = ''new''\<rparr>,
            \<lparr>title = ''B'', url = ''https://b.example/'', displayUrl = ''b'', summary = ''other''\<rparr>])) = 1
   \<and> length (mergeResults
           [\<lparr>title = ''A'', url = ''https://a.example/'', displayUrl = ''N/A'', summary = ''old''\<rparr>]
           [\<lparr>title = ''A'', url = ''https://a.example/'', displayUrl = ''a'', summary = ''new''\<rparr>,
            \<lparr>title = ''B'', url = ''https://b.example/'', displayUrl = ''b'', summary = ''other''\<rparr>]) = 2"
  using merge_monotone
    [of "[\<lparr>title = ''A'', url = ''https://a.example/'', displayUrl = ''N/A'', summary = ''old''\<rparr>]"
        "[\<lparr>title = ''A'', url = ''https://a.example/'', displayUrl = ''a'', summary = ''new''\<rparr>,
          \<lparr>title = ''B'', url = ''https://b.example/'', displayUrl = ''b'', summary = ''other''\<rparr>]"]
  by (simp add: recordKey_def)

section \<open>Uniqueness of the accumulated results\<close>

lemma worldUnique_console: "worldUnique w \<Longrightarrow> worldUnique (console l w)"
  by (auto simp: worldUnique_def console_def)

lemma worldUnique_emit: "worldUnique w \<Longrightarrow> (\<And>s. e \<noteq> SetItem s) \<Longrightarrow> worldUnique (emit e w)"
  by (auto simp: worldUnique_def emit_def)

lemma worldUnique_removeItem: "worldUnique w \<Longrightarrow> worldUnique (removeItem w)"
  by (auto simp: worldUnique_def removeItem_def storeUnique_def)

lemma worldUnique_saveState:
  "worldUnique w \<Longrightarrow> uniqueResults (allResults st) \<Longrightarrow> worldUnique (saveState st w)"
  by (auto simp: worldUnique_def saveState_def storeUnique_def)

lemma worldUnique_logs:
  "worldUnique w \<Longrightarrow> worldUnique (w\<lparr>events := events w @ map Console ls\<rparr>)"
  by (auto simp: worldUnique_def)

lemma worldUnique_display:
  "worldUnique w \<Longrightarrow> worldUnique (displayAndClearFinalResults st w)"
  by (simp add: displayAndClearFinalResults_def worldUnique_console worldUnique_removeItem)

lemmas worldUnique_intros =
  worldUnique_console worldUnique_emit worldUnique_removeItem worldUnique_saveState
  worldUnique_logs worldUnique_display

lemma home_unique:
  assumes "worldUnique w" "uniqueResults (allResults st)"
  shows "uniqueResults (allResults (fst (processGoogleHomePage pg st w)))
         \<and> worldUnique (snd (processGoogleHomePage pg st w))"
  using assms
  by (auto simp: processGoogleHomePage_def Let_def intro!: worldUnique_intros split: option.splits)

lemma results_unique:
  assumes "worldUnique w" "uniqueResults (allResults st)"
  shows "uniqueResults (allResults (fst (processSearchResultsPage pg st w)))
         \<and> worldUnique (snd (processSearchResultsPage pg st w))"
  using assms
  by (auto simp: processSearchResultsPage_def Let_def mergeResults_unique
           intro!: worldUnique_intros split: option.splits)

lemma runPhase_unique:
  assumes "worldUnique w" "uniqueResults (allResults st)"
  shows "uniqueResults (allResults (fst (runPhase pg st w)))
         \<and> worldUnique (snd (runPhase pg st w))"
proof -
  have empty: "uniqueResults []" by (simp add: uniqueResults_def)
  note sub = home_unique results_unique
  show ?thesis
    unfolding runPhase_def Let_def
    using assms empty
    by (auto intro!: worldUnique_intros sub [THEN conjunct1] sub [THEN conjunct2])
qed

lemma loadState_unique:
  assumes "worldUnique w"
  shows "worldUnique (snd (loadState kw w))
         \<and> (\<forall>st. fst (loadState kw w) = Some st \<longrightarrow> uniqueResults (allResults st))"
  using assms
  by (auto simp: loadState_def Let_def initialState_def uniqueResults_def
           intro!: worldUnique_intros split: store.splits)
     (auto simp: worldUnique_def storeUnique_def uniqueResults_def)

lemma start_unique:
  assumes "worldUnique w"
  shows "uniqueResults (allResults (fst (startFullGoogleSearchAutomation kw pg w)))
         \<and> worldUnique (snd (startFullGoogleSearchAutomation kw pg w))"
proof (cases "loadState kw w")
  case (Pair r w')
  with loadState_unique [OF assms, of kw]
  have w': "worldUnique w'" and r: "\<And>st. r = Some st \<Longrightarrow> uniqueResults (allResults st)"
    by auto
  show ?thesis
  proof (cases r)
    case None
    with Pair w' show ?thesis
      by (simp add: startFullGoogleSearchAutomation_def initialState_def uniqueResults_def)
  next
    case (Some st)
    with Pair runPhase_unique [OF w' r [OF Some], of pg] show ?thesis
      by (simp add: startFullGoogleSearchAutomation_def)
  qed
qed

lemma reachable_storeUnique: "reachableStore \<sigma> \<Longrightarrow> storeUnique \<sigma>"
proof (induction rule: reachableStore.induct)
  case fresh_absent
  show ?case by (simp add: storeUnique_def)
next
  case (fresh_stored s)
  then show ?case by (simp add: storeUnique_def uniqueResults_def)
next
  case (invoke \<sigma> kw pg)
  then have "worldUnique \<lparr>storage = \<sigma>, events = []\<rparr>" by (simp add: worldUnique_def)
  from start_unique [OF this, of kw pg] show ?case by (simp add: worldUnique_def)
qed

text \<open>
  Claim C2 (uniqueness invariant). In every contents of the session store reachable from a
  fresh start by any sequence of controller calls, no two entries of \<open>allResults\<close> have
  both the same title and the same url; the same holds for the state a further call ends
  with, and for every state it writes to the store on the way.
\<close>

theorem uniqueness_invariant:
  assumes "reachableStore \<sigma>"
  shows "(\<forall>s. \<sigma> = Stored s \<longrightarrow> distinct (map recordKey (allResults s)))
    \<and> (\<forall>kw pg. distinct (map recordKey (allResults (fst (startFullGoogleSearchAutomation kw pg \<lparr>storage = \<sigma>, events = []\<rparr>))))
         \<and> (\<forall>s. SetItem s \<in> set (events (snd (startFullGoogleSearchAutomation kw pg \<lparr>storage = \<sigma>, events = []\<rparr>)))
               \<longrightarrow> distinct (map recordKey (allResults s))))"
proof -
  from reachable_storeUnique [OF assms]
  have w: "worldUnique \<lparr>storage = \<sigma>, events = []\<rparr>" and s: "storeUnique \<sigma>"
    by (simp_all add: worldUnique_def)
  from s have "\<forall>s. \<sigma> = Stored s \<longrightarrow> distinct (map recordKey (allResults s))"
    by (auto simp: storeUnique_def uniqueResults_def)
  moreover have "distinct (map recordKey (allResults (fst (startFullGoogleSearchAutomation kw pg \<lparr>storage = \<sigma>, events = []\<rparr>))))
         \<and> (\<forall>s. SetItem s \<in> set (events (snd (startFullGoogleSearchAutomation kw pg \<lparr>storage = \<sigma>, events = []\<rparr>)))
               \<longrightarrow> distinct (map recordKey (allResults s)))" for kw pg
    using start_unique [OF w, of kw pg] by (simp add: worldUnique_def uniqueResults_def)
  ultimately show ?thesis by blast
qed

theorem uniqueness_invariant_witness:
  "reachableStore (Stored (scrapingState 2 10
       [\<lparr>title = ''Isabelle'', url = ''https://isabelle.in.tum.de/'', displayUrl = ''N/A'', summary = NO_SUMMARY\<rparr>,
        \<lparr>title = ''Archive of Formal Proofs'', url = ''https://www.isa-afp.org/'', displayUrl = ''N/A'', summary = NO_SUMMARY\<rparr>]))
   \<and> distinct (map recordKey (allResults (scrapingState 2 10
       [\<lparr>title = ''Isabelle'', url = ''https://isabelle.in.tum.de/'', displayUrl = ''N/A'', summary = NO_SUMMARY\<rparr>,
        \<lparr>title = ''Archive of Formal Proofs'', url = ''https://www.isa-afp.org/'', displayUrl = ''N/A'', summary = NO_SUMMARY\<rparr>])))"
proof -
  let ?s = "scrapingState 2 10
       [\<lparr>title = ''Isabelle'', url = ''https://isabelle.in.tum.de/'', displayUrl = ''N/A'', summary = NO_SUMMARY\<rparr>,
        \<lparr>title = ''Archive of Formal Proofs'', url = ''https://www.isa-afp.org/'', displayUrl = ''N/A'', summary = NO_SUMMARY\<rparr>]"
  have step: "storage (snd (startFullGoogleSearchAutomation (Some ''isabelle'')
           (resultsPage [organicCandidate ''Isabelle'' ''https://isabelle.in.tum.de/'',
                         organicCandidate ''Archive of Formal Proofs'' ''https://www.isa-afp.org/'',
                         organicCandidate ''Isabelle'' ''https://isabelle.in.tum.de/'']
              (Some ''https://www.google.com/search?q=isabelle&start=10''))
           \<lparr>storage = Stored (scrapingState 1 10 []), events = []\<rparr>)) = Stored ?s"
    by code_simp
  have "reachableStore (Stored (scrapingState 1 10 []))"
    by (rule reachableStore.fresh_stored) (simp add: scrapingState_def)
  from reachableStore.invoke [OF this] have r: "reachableStore (Stored ?s)"
    unfolding step [symmetric] .
  from uniqueness_invariant [OF r] have "distinct (map recordKey (allResults ?s))"
    by blast
  with r show ?thesis by simp
qed

section \<open>One navigation per call, after the checkpoint\<close>

lemma checkpointed_append:
  "checkpointed st saved (xs @ ys) =
     (checkpointed st saved xs \<and> checkpointed st (saved \<or> SetItem st \<in> set xs) ys)"
proof (induction xs arbitrary: saved)
  case Nil
  show ?case by simp
next
  case (Cons a xs)
  show ?case
  proof (cases "isNavigation a")
    case True
    then have "SetItem st \<noteq> a" by (auto simp: isNavigation_def)
    with True Cons.IH [of saved] show ?thesis by simp
  next
    case False
    with Cons.IH [of "saved \<or> SetItem st = a"] show ?thesis by (simp add: disj_assoc)
  qed
qed

lemma checkpointed_sound:
  assumes "checkpointed st saved tr" "tr = pre @ e # post" "isNavigation e"
  shows "saved \<or> SetItem st \<in> set pre"
  using assms by (auto simp: checkpointed_append)

lemma checkpointed_mono: "checkpointed st saved tr \<Longrightarrow> checkpointed st True tr"
  by (induction tr arbitrary: saved) (auto split: if_splits)

lemma checkpointed_no_nav: "filter isNavigation tr = [] \<Longrightarrow> checkpointed st saved tr"
  by (induction tr arbitrary: saved) (auto split: if_splits)

lemma navs_logs [simp]: "filter isNavigation (map Console ls) = []"
  by (induction ls) (auto simp: isNavigation_def)

lemma checkpointedTrace_prefix:
  assumes "filter isNavigation pre = []" "checkpointedTrace st tr"
  shows "checkpointedTrace st (pre @ tr)"
proof -
  from assms(2) have "checkpointed st (False \<or> SetItem st \<in> set pre) tr"
    by (cases "SetItem st \<in> set pre") (auto simp: checkpointedTrace_def dest: checkpointed_mono)
  with assms show ?thesis
    by (simp add: checkpointedTrace_def checkpointed_append checkpointed_no_nav)
qed

lemma events_console [simp]: "events (console l w) = events w @ [Console l]"
  by (simp add: console_def)

lemma events_emit [simp]: "events (emit e w) = events w @ [e]"
  by (simp add: emit_def)

lemma events_removeItem [simp]: "events (removeItem w) = events w @ [RemoveItem]"
  by (simp add: removeItem_def)

lemma events_saveState [simp]: "events (saveState st w) = events w @ [SetItem st]"
  by (simp add: saveState_def)

lemma events_display [simp]:
  "events (displayAndClearFinalResults st w)
     = events w @ [Console LOG, Console LOG, Console TABLE, Console LOG, Console LOG, RemoveItem]"
  by (simp add: displayAndClearFinalResults_def)

lemma home_trace:
  "\<exists>tr. events (snd (processGoogleHomePage pg st w)) = events w @ tr
        \<and> checkpointedTrace (fst (processGoogleHomePage pg st w)) tr"
  by (cases "searchButton pg")
     (simp_all add: processGoogleHomePage_def Let_def checkpointedTrace_def isNavigation_def)

lemma results_trace:
  "\<exists>tr. events (snd (processSearchResultsPage pg st w)) = events w @ tr
        \<and> checkpointedTrace (fst (processSearchResultsPage pg st w)) tr"
  by (cases "nextPageButton pg")
     (simp_all add: processSearchResultsPage_def Let_def checkpointedTrace_def isNavigation_def
        checkpointed_append checkpointed_no_nav)

lemma runPhase_trace:
  "\<exists>tr. events (snd (runPhase pg st w)) = events w @ tr
        \<and> checkpointedTrace (fst (runPhase pg st w)) tr"
proof -
  let ?st' = "st\<lparr>currentPhase := ON_GOOGLE_HOME\<rparr>"
  obtain trh where trh: "events (snd (processGoogleHomePage pg st (console LOG w))) = events (console LOG w) @ trh"
      "checkpointedTrace (fst (processGoogleHomePage pg st (console LOG w))) trh"
    using home_trace by blast
  obtain trh' where trh': "events (snd (processGoogleHomePage pg ?st' (saveState ?st' (console LOG w))))
        = events (saveState ?st' (console LOG w)) @ trh'"
      "checkpointedTrace (fst (processGoogleHomePage pg ?st' (saveState ?st' (console LOG w)))) trh'"
    using home_trace by blast
  obtain trr where trr: "events (snd (processSearchResultsPage pg st (console LOG w))) = events (console LOG w) @ trr"
      "checkpointedTrace (fst (processSearchResultsPage pg st (console LOG w))) trr"
    using results_trace by blast
  have h: "checkpointedTrace (fst (processGoogleHomePage pg st (console LOG w))) ([Console LOG] @ trh)"
    by (rule checkpointedTrace_prefix [OF _ trh(2)]) (simp add: isNavigation_def)
  have h': "checkpointedTrace (fst (processGoogleHomePage pg ?st' (saveState ?st' (console LOG w))))
              ([Console LOG, SetItem ?st'] @ trh')"
    by (rule checkpointedTrace_prefix [OF _ trh'(2)]) (simp add: isNavigation_def)
  have r: "checkpointedTrace (fst (processSearchResultsPage pg st (console LOG w))) ([Console LOG] @ trr)"
    by (rule checkpointedTrace_prefix [OF _ trr(2)]) (simp add: isNavigation_def)
  show ?thesis
    unfolding runPhase_def Let_def
    using trh(1) trh'(1) trr(1) h h' r
    by (auto simp: checkpointedTrace_def isNavigation_def)
qed

lemma loadState_trace:
  "\<exists>tr. events (snd (loadState kw w)) = events w @ tr \<and> filter isNavigation tr = []"
  by (cases "storage w") (simp_all add: loadState_def Let_def isNavigation_def)

lemma start_trace:
  "\<exists>tr. events (snd (startFullGoogleSearchAutomation kw pg w)) = events w @ tr
        \<and> checkpointedTrace (fst (startFullGoogleSearchAutomation kw pg w)) tr"
proof (cases "loadState kw w")
  case (Pair r w')
  obtain tr1 where tr1: "events w' = events w @ tr1" "filter isNavigation tr1 = []"
    using loadState_trace [of kw w] Pair by auto
  show ?thesis
  proof (cases r)
    case None
    with Pair tr1 show ?thesis
      by (simp add: startFullGoogleSearchAutomation_def checkpointedTrace_def checkpointed_no_nav)
  next
    case (Some st)
    obtain tr2 where tr2: "events (snd (runPhase pg st w')) = events w' @ tr2"
        "checkpointedTrace (fst (runPhase pg st w')) tr2"
      using runPhase_trace by blast
    from checkpointedTrace_prefix [OF tr1(2) tr2(2)] tr1(1) tr2(1) Pair Some show ?thesis
      by (simp add: startFullGoogleSearchAutomation_def)
  qed
qed

text \<open>
  Claim C1. In every call of the controller, in any phase, on any page and with any
  contents of the session store, at most one navigation (the assignment to the location or
  a click on the search or next-page control) is attempted; and whenever one is attempted,
  a write of the current workflow state (the state the call ends with) to the store comes
  before it in the same call.
\<close>

theorem single_checkpointed_navigation:
  assumes "startFullGoogleSearchAutomation kw pg \<lparr>storage = \<sigma>, events = []\<rparr> = (st, w)"
  shows "length (filter isNavigation (events w)) \<le> 1
    \<and> (\<forall>pre e post. events w = pre @ e # post \<and> isNavigation e \<longrightarrow> SetItem st \<in> set pre)"
proof -
  from start_trace [of kw pg "\<lparr>storage = \<sigma>, events = []\<rparr>"] assms
  have c: "checkpointedTrace st (events w)" by simp
  then have "length (filter isNavigation (events w)) \<le> 1"
    by (simp add: checkpointedTrace_def)
  moreover have "SetItem st \<in> set pre" if "events w = pre @ e # post" "isNavigation e" for pre e post
    using checkpointed_sound [OF _ that, of st False] c by (auto simp: checkpointedTrace_def)
  ultimately show ?thesis by blast
qed

theorem single_checkpointed_navigation_witness:
  "startFullGoogleSearchAutomation (Some ''isabelle'')
       (resultsPage [organicCandidate ''Isabelle'' ''https://isabelle.in.tum.de/'']
          (Some ''https://www.google.com/search?q=isabelle&start=10''))
       \<lparr>storage = Stored (scrapingState 1 10 []), events = []\<rparr>
     = (scrapingState 2 10
          [\<lparr>title = ''Isabelle'', url = ''https://isabelle.in.tum.de/'', displayUrl = ''N/A'', summary = NO_SUMMARY\<rparr>],
        \<lparr>storage = Stored (scrapingState 2 10
          [\<lparr>title = ''Isabelle'', url = ''https://isabelle.in.tum.de/'', displayUrl = ''N/A'', summary = NO_SUMMARY\<rparr>]),
         events = [Console LOG, Console LOG, Console LOG, Console LOG, Console LOG, Console TABLE, Console LOG,
           SetItem (scrapingState 2 10
             [\<lparr>title = ''Isabelle'', url = ''https://isabelle.in.tum.de/'', displayUrl = ''N/A'', summary = NO_SUMMARY\<rparr>])]
           @ Click NextPageButton # []\<rparr>)
   \<and> isNavigation (Click NextPageButton)
   \<and> SetItem (scrapingState 2 10
          [\<lparr>title = ''Isabelle'', url = ''https://isabelle.in.tum.de/'', displayUrl = ''N/A'', summary = NO_SUMMARY\<rparr>])
       \<in> set [Console LOG, Console LOG, Console LOG, Console LOG, Console LOG, Console TABLE, Console LOG,
           SetItem (scrapingState 2 10
             [\<lparr>title = ''Isabelle'', url = ''https://isabelle.in.tum.de/'', displayUrl = ''N/A'', summary = NO_SUMMARY\<rparr>])]"
proof -
  let ?S = "scrapingState 2 10
          [\<lparr>title = ''Isabelle'', url = ''https://isabelle.in.tum.de/'', displayUrl = ''N/A'', summary = NO_SUMMARY\<rparr>]"
  let ?pre = "[Console LOG, Console LOG, Console LOG, Console LOG, Console LOG, Console TABLE, Console LOG,
           SetItem ?S]"
  let ?W = "\<lparr>storage = Stored ?S, events = ?pre @ Click NextPageButton # []\<rparr>"
  have run: "startFullGoogleSearchAutomation (Some ''isabelle'')
       (resultsPage [organicCandidate ''Isabelle'' ''https://isabelle.in.tum.de/'']
          (Some ''https://www.google.com/search?q=isabelle&start=10''))
       \<lparr>storage = Stored (scrapingState 1 10 []), events = []\<rparr> = (?S, ?W)"
    by code_simp
  have nav: "isNavigation (Click NextPageButton)"
    by (simp add: isNavigation_def)
  from single_checkpointed_navigation [OF run]
  have "\<forall>pre e post. events ?W = pre @ e # post \<and> isNavigation e \<longrightarrow> SetItem ?S \<in> set pre"
    by (rule conjunct2)
  from this [rule_format, of ?pre "Click NextPageButton" "[]"] nav
  have "SetItem ?S \<in> set ?pre" by simp
  with run nav show ?thesis by blast
qed

section \<open>Bounded scraping\<close>

lemma storage_console [simp]: "storage (console l w) = storage w"
  by (simp add: console_def)

lemma storage_emit [simp]: "storage (emit e w) = storage w"
  by (simp add: emit_def)

lemma storage_removeItem [simp]: "storage (removeItem w) = Absent"
  by (simp add: removeItem_def)

lemma storage_saveState [simp]: "storage (saveState st w) = Stored st"
  by (simp add: saveState_def)

lemma storage_display [simp]: "storage (displayAndClearFinalResults st w) = Absent"
  by (simp add: displayAndClearFinalResults_def)

lemma results_storage:
  "storage (snd (processSearchResultsPage pg st w)) = Absent
   \<or> (currentPageNum st < maxPages st
      \<and> (\<exists>st'. storage (snd (processSearchResultsPage pg st w)) = Stored st'
             \<and> currentPhase st' = currentPhase st
             \<and> currentPageNum st' = currentPageNum st + 1 \<and> maxPages st' = maxPages st))"
  by (cases "nextPageButton pg") (simp_all add: processSearchResultsPage_def Let_def)

lemma results_finishes_at_bound:
  "maxPages st \<le> currentPageNum st \<Longrightarrow> currentPhase (fst (processSearchResultsPage pg st w)) = FINISHED"
  by (simp add: processSearchResultsPage_def Let_def)

lemma executesScraping_loaded:
  assumes "executesScraping kw pg (Stored s)"
  shows "currentPhase s = SCRAPING_RESULTS \<and> js_includes (href pg) ''/search?q=''
     \<and> (\<exists>w'. loadState kw \<lparr>storage = Stored s, events = []\<rparr> = (Some s, w'))"
  using assms
  by (auto simp: executesScraping_def loadState_def Let_def initialState_def
           split: option.splits if_splits)

lemma executesScraping_step:
  assumes "executesScraping kw pg (Stored s)"
  shows "storage (snd (startFullGoogleSearchAutomation kw pg \<lparr>storage = Stored s, events = []\<rparr>)) = Absent
   \<or> (currentPageNum s < maxPages s
      \<and> (\<exists>s'. storage (snd (startFullGoogleSearchAutomation kw pg \<lparr>storage = Stored s, events = []\<rparr>)) = Stored s'
             \<and> currentPageNum s' = currentPageNum s + 1 \<and> maxPages s' = maxPages s))"
proof -
  from executesScraping_loaded [OF assms] obtain w' where
    ph: "currentPhase s = SCRAPING_RESULTS" and loc: "js_includes (href pg) ''/search?q=''"
    and ld: "loadState kw \<lparr>storage = Stored s, events = []\<rparr> = (Some s, w')" by blast
  have "startFullGoogleSearchAutomation kw pg \<lparr>storage = Stored s, events = []\<rparr>
          = processSearchResultsPage pg s (console LOG w')"
    using ph loc ld by (simp add: startFullGoogleSearchAutomation_def runPhase_def Let_def)
  with results_storage [of pg s "console LOG w'"] show ?thesis by auto
qed

lemma not_scraping_unless_stored:
  "executesScraping kw pg \<sigma> \<Longrightarrow> \<exists>s. \<sigma> = Stored s"
  by (cases \<sigma>) (auto simp: executesScraping_def loadState_def Let_def initialState_def split: if_splits)

lemma scrapingRun_Absent: "scrapingRun Absent calls = 0"
proof (cases calls)
  case Nil
  then show ?thesis by simp
next
  case (Cons c cs)
  obtain kw pg where "c = (kw, pg)" by (cases c)
  with Cons not_scraping_unless_stored [of kw pg Absent] show ?thesis by auto
qed

lemma scrapingRun_bound:
  "scrapingRun (Stored s) calls \<le> Suc (nat (maxPages s - currentPageNum s))"
proof (induction calls arbitrary: s)
  case Nil
  show ?case by simp
next
  case (Cons c calls)
  obtain kw pg where c: "c = (kw, pg)" by (cases c)
  show ?case
  proof (cases "executesScraping kw pg (Stored s)")
    case False
    with c show ?thesis by simp
  next
    case True
    let ?\<sigma> = "storage (snd (startFullGoogleSearchAutomation kw pg \<lparr>storage = Stored s, events = []\<rparr>))"
    from executesScraping_step [OF True]
    consider "?\<sigma> = Absent"
      | s' where "currentPageNum s < maxPages s" "?\<sigma> = Stored s'"
          "currentPageNum s' = currentPageNum s + 1" "maxPages s' = maxPages s"
      by blast
    then show ?thesis
    proof cases
      case 1
      with True c show ?thesis by (simp add: scrapingRun_Absent)
    next
      case 2
      from Cons.IH [of s'] 2 have "scrapingRun ?\<sigma> calls \<le> Suc (nat (maxPages s - (currentPageNum s + 1)))"
        by simp
      also have "\<dots> \<le> nat (maxPages s - currentPageNum s)" using 2(1) by simp
      finally show ?thesis using True c by simp
    qed
  qed
qed

lemma home_script:
  assumes "scriptState st" "currentPhase st = ON_GOOGLE_HOME"
  shows "scriptStore (storage (snd (processGoogleHomePage pg st w)))
       \<and> restartedStore (storage (snd (processGoogleHomePage pg st w)))"
  using assms
  by (cases "searchButton pg")
     (auto simp: processGoogleHomePage_def Let_def scriptStore_def scriptState_def restartedStore_def)

lemma results_script:
  assumes "scriptState st" "currentPhase st = SCRAPING_RESULTS"
  shows "scriptStore (storage (snd (processSearchResultsPage pg st w)))"
  using assms
  by (cases "nextPageButton pg")
     (auto simp: processSearchResultsPage_def Let_def scriptStore_def scriptState_def)

lemma runPhase_script:
  assumes "scriptState st" "truthy (keyword st)"
  shows "scriptStore (storage (snd (runPhase pg st w)))
     \<and> (\<not> (currentPhase st = SCRAPING_RESULTS \<and> js_includes (href pg) ''/search?q='')
          \<longrightarrow> restartedStore (storage (snd (runPhase pg st w))))"
proof -
  let ?st' = "st\<lparr>currentPhase := ON_GOOGLE_HOME\<rparr>"
  have init: "scriptState ?st' \<and> currentPhase ?st' = ON_GOOGLE_HOME" if "currentPhase st = INITIATE_SEARCH"
    using assms(1) that by (auto simp: scriptState_def)
  note h1 = home_script [of ?st' pg "saveState ?st' (console LOG w)"]
  note h2 = home_script [of st pg "console LOG w"]
  note r = results_script [of st pg "console LOG w"]
  from assms(1) consider "currentPhase st = INITIATE_SEARCH" | "currentPhase st = ON_GOOGLE_HOME"
    | "currentPhase st = SCRAPING_RESULTS"
    by (auto simp: scriptState_def)
  then show ?thesis
  proof cases
    case 1
    with init h1 assms show ?thesis
      by (auto simp: runPhase_def Let_def scriptStore_def scriptState_def restartedStore_def)
  next
    case 2
    with h2 assms show ?thesis
      by (auto simp: runPhase_def Let_def scriptStore_def scriptState_def restartedStore_def)
  next
    case 3
    with r assms show ?thesis
      by (auto simp: runPhase_def Let_def scriptStore_def scriptState_def restartedStore_def)
  qed
qed

lemma loadState_script:
  assumes "scriptStore (storage w)"
  shows "(case fst (loadState kw w) of
            None \<Rightarrow> storage (snd (loadState kw w)) = Absent \<or> storage (snd (loadState kw w)) = Corrupt
          | Some st \<Rightarrow> scriptState st \<and> truthy (keyword st))"
  using assms
  by (cases "storage w")
     (auto simp: loadState_def Let_def scriptStore_def scriptState_def initialState_def
        MAX_PAGES_TO_SCRAPE_def)

lemma start_script:
  assumes "scriptStore \<sigma>"
  shows "scriptStore (storage (snd (startFullGoogleSearchAutomation kw pg \<lparr>storage = \<sigma>, events = []\<rparr>)))
     \<and> (\<not> executesScraping kw pg \<sigma>
          \<longrightarrow> restartedStore (storage (snd (startFullGoogleSearchAutomation kw pg \<lparr>storage = \<sigma>, events = []\<rparr>))))"
proof -
  let ?w = "\<lparr>storage = \<sigma>, events = []\<rparr>"
  obtain r w' where ld: "loadState kw ?w = (r, w')" by (cases "loadState kw ?w")
  from loadState_script [of ?w kw] assms ld
  have l: "case r of None \<Rightarrow> storage w' = Absent \<or> storage w' = Corrupt
          | Some st \<Rightarrow> scriptState st \<and> truthy (keyword st)"
    by (auto split: option.splits)
  show ?thesis
  proof (cases r)
    case None
    with l ld show ?thesis
      by (auto simp: startFullGoogleSearchAutomation_def scriptStore_def restartedStore_def)
  next
    case (Some st)
    with l have "scriptState st" "truthy (keyword st)" by simp_all
    from runPhase_script [OF this, of pg w'] Some ld show ?thesis
      by (simp add: startFullGoogleSearchAutomation_def executesScraping_def)
  qed
qed

lemma started_script: "startedStore \<sigma> \<Longrightarrow> scriptStore \<sigma>"
proof (induction rule: startedStore.induct)
  case empty
  show ?case by (simp add: scriptStore_def)
next
  case (call \<sigma> kw pg)
  with start_script [of \<sigma> kw pg] show ?case by simp
qed

lemma started_bound:
  assumes "startedStore \<sigma>"
  shows "int (scrapingRun \<sigma> calls) \<le> MAX_PAGES_TO_SCRAPE"
proof (cases \<sigma>)
  case (Stored s)
  with started_script [OF assms] have "scriptState s" by (simp add: scriptStore_def)
  with scrapingRun_bound [of s calls] Stored show ?thesis
    by (auto simp: scriptState_def MAX_PAGES_TO_SCRAPE_def)
next
  case Absent
  then show ?thesis by (simp add: scrapingRun_Absent MAX_PAGES_TO_SCRAPE_def)
next
  case Corrupt
  have "scrapingRun Corrupt calls = 0"
  proof (cases calls)
    case Nil
    then show ?thesis by simp
  next
    case (Cons c cs)
    obtain kw pg where "c = (kw, pg)" by (cases c)
    with Cons not_scraping_unless_stored [of kw pg Corrupt] show ?thesis by auto
  qed
  with Corrupt show ?thesis by (simp add: MAX_PAGES_TO_SCRAPE_def)
qed

text \<open>
  Claim C3 says that the number of scraping phase executions before \<open>currentPhase\<close>
  becomes \<open>FINISHED\<close> is at most \<open>maxPages\<close>. The recovery of lines 214 to 220 resets
  \<open>currentPageNum\<close> to 1 without passing through \<open>FINISHED\<close>, so a workflow that
  restarts scrapes more often: in the run below, started by the script with its bound of
  10, the scraping phase is executed eleven times before the phase becomes \<open>FINISHED\<close>.
\<close>

theorem bounded_scraping_counterexample:
  "scrapingTotal Absent restartRun = (11, True) \<and> MAX_PAGES_TO_SCRAPE = 10"
  by code_simp

text \<open>
  Claim C3 as amended (bounded termination between restarts). Page numbers are integers
  below \<open>2^53\<close>, where \<^verbatim>\<open>currentPageNum++\<close> is exact.
  \<^item> For a persisted state in the scraping phase on page 1 with \<open>1 \<le> maxPages \<le> 2^53\<close>,
    the number of consecutive scraping phase executions, over any calls on any pages, is
    at most \<open>maxPages\<close>.
  \<^item> In a workflow the script started (the store was empty at first), the page bound is
    10, the page number stays between 1 and 10, every run of consecutive scraping phase
    executions has at most 10 of them, and a call that does not execute the scraping
    phase leaves the store empty or holding a state on page 1 with no results: the
    scraping phase is always entered on page 1, and what interrupts a run is a restart,
    an abort or the end of the workflow.
  \<^item> The execution on a page with \<open>currentPageNum \<ge> maxPages\<close> always ends in phase
    \<open>FINISHED\<close>, whether or not the page has a next-page control.
\<close>

theorem bounded_scraping:
  "(currentPhase s = SCRAPING_RESULTS \<and> currentPageNum s = 1 \<and> 1 \<le> maxPages s
       \<and> maxPages s \<le> 9007199254740992
      \<longrightarrow> int (scrapingRun (Stored s) calls) \<le> maxPages s)
   \<and> (startedStore \<sigma>
      \<longrightarrow> int (scrapingRun \<sigma> calls) \<le> MAX_PAGES_TO_SCRAPE
        \<and> (\<forall>s'. \<sigma> = Stored s' \<longrightarrow> maxPages s' = MAX_PAGES_TO_SCRAPE \<and> 1 \<le> currentPageNum s'
                  \<and> currentPageNum s' \<le> MAX_PAGES_TO_SCRAPE)
        \<and> (\<not> executesScraping kw pg \<sigma> \<longrightarrow>
             (\<forall>s'. storage (snd (startFullGoogleSearchAutomation kw pg \<lparr>storage = \<sigma>, events = []\<rparr>)) = Stored s'
                \<longrightarrow> currentPageNum s' = 1 \<and> allResults s' = [])))
   \<and> (maxPages s \<le> currentPageNum s
      \<longrightarrow> currentPhase (fst (processSearchResultsPage pg s w)) = FINISHED)"
proof (intro conjI impI allI)
  assume "currentPhase s = SCRAPING_RESULTS \<and> currentPageNum s = 1 \<and> 1 \<le> maxPages s
       \<and> maxPages s \<le> 9007199254740992"
  with scrapingRun_bound [of s calls] show "int (scrapingRun (Stored s) calls) \<le> maxPages s"
    by auto
next
  assume "startedStore \<sigma>"
  then show "int (scrapingRun \<sigma> calls) \<le> MAX_PAGES_TO_SCRAPE" by (rule started_bound)
next
  fix s' assume "startedStore \<sigma>" "\<sigma> = Stored s'"
  with started_script [of \<sigma>] have s: "scriptState s'" by (simp add: scriptStore_def)
  from s show "maxPages s' = MAX_PAGES_TO_SCRAPE" by (simp add: scriptState_def)
  from s show "1 \<le> currentPageNum s'" by (simp add: scriptState_def)
  from s show "currentPageNum s' \<le> MAX_PAGES_TO_SCRAPE" by (simp add: scriptState_def)
next
  fix s'
  assume "startedStore \<sigma>" "\<not> executesScraping kw pg \<sigma>"
    "storage (snd (startFullGoogleSearchAutomation kw pg \<lparr>storage = \<sigma>, events = []\<rparr>)) = Stored s'"
  with start_script [OF started_script, of \<sigma> kw pg]
  have r: "currentPageNum s' = 1 \<and> allResults s' = []" by (simp add: restartedStore_def)
  from r show "currentPageNum s' = 1" ..
  from r show "allResults s' = []" ..
next
  assume "maxPages s \<le> currentPageNum s"
  then show "currentPhase (fst (processSearchResultsPage pg s w)) = FINISHED"
    by (rule results_finishes_at_bound)
qed


theorem bounded_scraping_witness:
  "int (scrapingRun (Stored (scrapingState 1 2 []))
          [(Some ''isabelle'', resultsPage [] (Some ''https://www.google.com/search?q=isabelle&start=10'')),
           (None, resultsPage [] (Some ''https://www.google.com/search?q=isabelle&start=20'')),
           (None, resultsPage [] (Some ''https://www.google.com/search?q=isabelle&start=30''))]) \<le> 2
   \<and> scrapingRun (Stored (scrapingState 1 2 []))
          [(Some ''isabelle'', resultsPage [] (Some ''https://www.google.com/search?q=isabelle&start=10'')),
           (None, resultsPage [] (Some ''https://www.google.com/search?q=isabelle&start=20'')),
           (None, resultsPage [] (Some ''https://www.google.com/search?q=isabelle&start=30''))] = 2
   \<and> startedStore (Stored (scrapingState 1 10 []))
   \<and> int (scrapingRun (Stored (scrapingState 1 10 []))
          (replicate 12 (Some ''isabelle'', resultsPage [] (Some ''https://www.google.com/search?q=isabelle&start=10''))))
        \<le> MAX_PAGES_TO_SCRAPE
   \<and> maxPages (scrapingState 1 10 []) = MAX_PAGES_TO_SCRAPE
   \<and> \<not> executesScraping (Some ''isabelle'')
          ((resultsPage [] None)\<lparr>href := ''https://www.google.com/search?sca_esv=1&q=isabelle&start=90''\<rparr>)
          (Stored (scrapingState 1 10 []))
   \<and> currentPageNum ((scrapingState 1 10 [])\<lparr>currentPhase := INITIATE_SEARCH\<rparr>) = 1
   \<and> currentPhase (fst (processSearchResultsPage
          (resultsPage [] (Some ''https://www.google.com/search?q=isabelle&start=20''))
          (scrapingState 2 2 []) \<lparr>storage = Stored (scrapingState 2 2 []), events = []\<rparr>)) = FINISHED"
proof -
  let ?calls = "[(Some ''isabelle'', resultsPage [] (Some ''https://www.google.com/search?q=isabelle&start=10'')),
           (None, resultsPage [] (Some ''https://www.google.com/search?q=isabelle&start=20'')),
           (None, resultsPage [] (Some ''https://www.google.com/search?q=isabelle&start=30''))]"
  let ?other = "(resultsPage [] None)\<lparr>href := ''https://www.google.com/search?sca_esv=1&q=isabelle&start=90''\<rparr>"
  let ?\<sigma> = "Stored (scrapingState 1 10 [])"
  have a: "currentPhase (scrapingState 1 2 []) = SCRAPING_RESULTS \<and> currentPageNum (scrapingState 1 2 []) = 1
      \<and> 1 \<le> maxPages (scrapingState 1 2 []) \<and> maxPages (scrapingState 1 2 []) \<le> 9007199254740992"
    by (simp add: scrapingState_def)
  have m: "maxPages (scrapingState 1 2 []) = 2"
    by (simp add: scrapingState_def)
  have bound: "int (scrapingRun (Stored (scrapingState 1 2 [])) ?calls) \<le> 2"
    using bounded_scraping [THEN conjunct1, rule_format, OF a, of ?calls] unfolding m .
  have attained: "scrapingRun (Stored (scrapingState 1 2 [])) ?calls = 2"
    by code_simp
  have first: "storage (snd (startFullGoogleSearchAutomation (Some ''isabelle'') searchHomePage
      \<lparr>storage = Absent, events = []\<rparr>)) = ?\<sigma>"
    by code_simp
  have started: "startedStore ?\<sigma>"
    using startedStore.call [OF startedStore.empty, of "Some ''isabelle''" searchHomePage]
    unfolding first .
  note b = bounded_scraping [THEN conjunct2, THEN conjunct1, rule_format, OF started]
  have noscrape: "\<not> executesScraping (Some ''isabelle'') ?other ?\<sigma>"
    by code_simp
  have after: "storage (snd (startFullGoogleSearchAutomation (Some ''isabelle'') ?other
      \<lparr>storage = ?\<sigma>, events = []\<rparr>)) = Stored ((scrapingState 1 10 [])\<lparr>currentPhase := INITIATE_SEARCH\<rparr>)"
    by code_simp
  from b [THEN conjunct2, THEN conjunct2, rule_format, OF noscrape after]
  have restart: "currentPageNum ((scrapingState 1 10 [])\<lparr>currentPhase := INITIATE_SEARCH\<rparr>) = 1"
    by (rule conjunct1)
  have c: "maxPages (scrapingState 2 2 []) \<le> currentPageNum (scrapingState 2 2 [])"
    by (simp add: scrapingState_def)
  from b [THEN conjunct2, THEN conjunct1, rule_format, OF refl]
  have bnd: "maxPages (scrapingState 1 10 []) = MAX_PAGES_TO_SCRAPE"
    by (rule conjunct1)
  from bound attained started b [THEN conjunct1] bnd noscrape restart
    bounded_scraping [THEN conjunct2, THEN conjunct2, rule_format, OF c]
  show ?thesis by (intro conjI)
qed

section \<open>A required control is missing\<close>

lemma home_missing_control:
  assumes "\<not> searchInput pg \<or> searchButton pg = None"
  shows "processGoogleHomePage pg st w
     = (st, \<lparr>storage = Absent, events = events w @ [Console LOG, Console ERROR, RemoveItem]\<rparr>)"
  using assms
  by (cases "searchButton pg")
     (auto simp: processGoogleHomePage_def Let_def console_def removeItem_def)

lemma results_missing_next:
  assumes "currentPageNum st < maxPages st" "nextPageButton pg = None \<or> nextPageButton pg = Some []"
  shows "processSearchResultsPage pg st w
     = (st\<lparr>allResults := mergeResults (allResults st)
              (fst (extractCurrentPageGoogleResults (urlRejected pg) (searchResultElements pg))),
           currentPhase := FINISHED\<rparr>,
        \<lparr>storage = Absent,
         events = events w @ [Console LOG]
           @ map Console (snd (extractCurrentPageGoogleResults (urlRejected pg) (searchResultElements pg)))
           @ [Console LOG,
              Console (if fst (extractCurrentPageGoogleResults (urlRejected pg) (searchResultElements pg)) \<noteq> []
                       then TABLE else LOG),
              Console LOG,
              SetItem (st\<lparr>allResults := mergeResults (allResults st)
                         (fst (extractCurrentPageGoogleResults (urlRejected pg) (searchResultElements pg))),
                       currentPhase := FINISHED\<rparr>),
              Console LOG, Console LOG, Console TABLE, Console LOG, Console LOG, RemoveItem]\<rparr>)"
proof -
  let ?x = "extractCurrentPageGoogleResults (urlRejected pg) (searchResultElements pg)"
  show ?thesis
  proof (cases "fst ?x = []")
    case True
    with assms show ?thesis
      by (auto simp: processSearchResultsPage_def Let_def console_def removeItem_def saveState_def
            displayAndClearFinalResults_def)
  next
    case False
    with assms show ?thesis
      by (auto simp: processSearchResultsPage_def Let_def console_def removeItem_def saveState_def
            displayAndClearFinalResults_def)
  qed
qed

text \<open>
  Claim C5 says that when a required control is absent (the query input or submit control
  on the home page, the next-page control on a results page) the action aborts, logs the
  failure and does not advance \<open>currentPhase\<close>. On a results page this is not what the
  controller does: a missing next-page control ends the workflow, and the phase advances
  to \<open>FINISHED\<close>.
\<close>

theorem missing_control_counterexample:
  "nextPageButton (resultsPage [] None) = None
   \<and> currentPhase (scrapingState 1 10 []) = SCRAPING_RESULTS
   \<and> currentPhase (fst (processSearchResultsPage (resultsPage [] None) (scrapingState 1 10 [])
         \<lparr>storage = Stored (scrapingState 1 10 []), events = []\<rparr>)) = FINISHED"
  by code_simp

text \<open>
  Claim C5 as amended, for a workflow state that has all its fields (as every state the
  script writes has). When the query input or the submit control is missing on the home
  page, the home page action writes an error to the console, removes the state from the
  store, does nothing else (no navigation, no write) and leaves the state,
  \<open>currentPhase\<close> included, as it was. When the next-page control is missing (or has no
  href) on a results page below the page bound, the scraping action merges the records
  extracted from the page into \<open>allResults\<close>, logs that no next-page control was found
  (the \<^verbatim>\<open>console.log\<close> of line 294, the message just before the write), sets
  \<open>currentPhase\<close> to \<open>FINISHED\<close>, writes that state, reports the results and removes the
  state from the store; it does nothing else, so no navigation is attempted. On such
  states both actions return: no exception is raised.
\<close>

theorem missing_control_behaviour:
  "((\<not> searchInput pg \<or> searchButton pg = None) \<longrightarrow>
      processGoogleHomePage pg st w
        = (st, \<lparr>storage = Absent, events = events w @ [Console LOG, Console ERROR, RemoveItem]\<rparr>))
   \<and> (currentPageNum st < maxPages st \<and> (nextPageButton pg = None \<or> nextPageButton pg = Some []) \<longrightarrow>
        processSearchResultsPage pg st w
          = (st\<lparr>allResults := mergeResults (allResults st)
                   (fst (extractCurrentPageGoogleResults (urlRejected pg) (searchResultElements pg))),
                currentPhase := FINISHED\<rparr>,
             \<lparr>storage = Absent,
              events = events w @ [Console LOG]
                @ map Console (snd (extractCurrentPageGoogleResults (urlRejected pg) (searchResultElements pg)))
                @ [Console LOG,
                   Console (if fst (extractCurrentPageGoogleResults (urlRejected pg) (searchResultElements pg)) \<noteq> []
                            then TABLE else LOG),
                   Console LOG,
                   SetItem (st\<lparr>allResults := mergeResults (allResults st)
                              (fst (extractCurrentPageGoogleResults (urlRejected pg) (searchResultElements pg))),
                            currentPhase := FINISHED\<rparr>),
                   Console LOG, Console LOG, Console TABLE, Console LOG, Console LOG, RemoveItem]\<rparr>))"
  using home_missing_control [of pg st w] results_missing_next [of st pg w] by blast

theorem missing_control_behaviour_witness:
  "processGoogleHomePage (homePage False None) homeState \<lparr>storage = Stored homeState, events = []\<rparr>
     = (homeState, \<lparr>storage = Absent, events = [Console LOG, Console ERROR, RemoveItem]\<rparr>)
   \<and> processSearchResultsPage
        (resultsPage [organicCandidate ''Isabelle'' ''https://isabelle.in.tum.de/'',
                      organicCandidate ''Isabelle'' ''https://isabelle.in.tum.de/''] None)
        (scrapingState 1 10 []) \<lparr>storage = Stored (scrapingState 1 10 []), events = []\<rparr>
     = ((scrapingState 1 10
           [\<lparr>title = ''Isabelle'', url = ''https://isabelle.in.tum.de/'', displayUrl = ''N/A'', summary = NO_SUMMARY\<rparr>])
          \<lparr>currentPhase := FINISHED\<rparr>,
        \<lparr>storage = Absent,
         events = [Console LOG, Console LOG, Console LOG, Console TABLE, Console LOG,
           SetItem ((scrapingState 1 10
             [\<lparr>title = ''Isabelle'', url = ''https://isabelle.in.tum.de/'', displayUrl = ''N/A'', summary = NO_SUMMARY\<rparr>])
             \<lparr>currentPhase := FINISHED\<rparr>),
           Console LOG, Console LOG, Console TABLE, Console LOG, Console LOG, RemoveItem]\<rparr>)"
proof -
  let ?pg = "resultsPage [organicCandidate ''Isabelle'' ''https://isabelle.in.tum.de/'',
                      organicCandidate ''Isabelle'' ''https://isabelle.in.tum.de/''] None"
  let ?w = "\<lparr>storage = Stored (scrapingState 1 10 []), events = []\<rparr>"
  have h: "\<not> searchInput (homePage False None) \<or> searchButton (homePage False None) = None"
    by (simp add: homePage_def)
  have r: "currentPageNum (scrapingState 1 10 []) < maxPages (scrapingState 1 10 [])
      \<and> (nextPageButton ?pg = None \<or> nextPageButton ?pg = Some [])"
    by (simp add: scrapingState_def resultsPage_def)
  from missing_control_behaviour [THEN conjunct1, rule_format, OF h,
      of homeState "\<lparr>storage = Stored homeState, events = []\<rparr>"]
  have a: "processGoogleHomePage (homePage False None) homeState \<lparr>storage = Stored homeState, events = []\<rparr>
     = (homeState, \<lparr>storage = Absent, events = [Console LOG, Console ERROR, RemoveItem]\<rparr>)"
    by simp
  have x: "extractCurrentPageGoogleResults (urlRejected ?pg) (searchResultElements ?pg)
     = ([\<lparr>title = ''Isabelle'', url = ''https://isabelle.in.tum.de/'', displayUrl = ''N/A'', summary = NO_SUMMARY\<rparr>,
         \<lparr>title = ''Isabelle'', url = ''https://isabelle.in.tum.de/'', displayUrl = ''N/A'', summary = NO_SUMMARY\<rparr>],
        [LOG])"
    by code_simp
  from missing_control_behaviour [THEN conjunct2, rule_format, OF r, of ?w]
  have b: "processSearchResultsPage ?pg (scrapingState 1 10 []) ?w
     = ((scrapingState 1 10
           [\<lparr>title = ''Isabelle'', url = ''https://isabelle.in.tum.de/'', displayUrl = ''N/A'', summary = NO_SUMMARY\<rparr>])
          \<lparr>currentPhase := FINISHED\<rparr>,
        \<lparr>storage = Absent,
         events = [Console LOG, Console LOG, Console LOG, Console TABLE, Console LOG,
           SetItem ((scrapingState 1 10
             [\<lparr>title = ''Isabelle'', url = ''https://isabelle.in.tum.de/'', displayUrl = ''N/A'', summary = NO_SUMMARY\<rparr>])
             \<lparr>currentPhase := FINISHED\<rparr>),
           Console LOG, Console LOG, Console TABLE, Console LOG, Console LOG, RemoveItem]\<rparr>)"
    unfolding x by (simp add: scrapingState_def)
  from a b show ?thesis by (intro conjI)
qed

section \<open>Recovery from a phase that does not match the location\<close>

lemma mismatch_restart:
  assumes "phaseMismatch (currentPhase p) pg" "truthy (keyword p)" "kw = keyword p \<or> \<not> truthy kw"
  shows "startFullGoogleSearchAutomation kw pg \<lparr>storage = Stored p, events = []\<rparr>
     = (p\<lparr>currentPhase := INITIATE_SEARCH, currentPageNum := 1, allResults := []\<rparr>,
        \<lparr>storage = Stored (p\<lparr>currentPhase := INITIATE_SEARCH, currentPageNum := 1, allResults := []\<rparr>),
         events = [Console LOG, Console LOG, Console WARN, Console LOG,
                   SetItem (p\<lparr>currentPhase := INITIATE_SEARCH, currentPageNum := 1, allResults := []\<rparr>),
                   AssignLocation]\<rparr>)"
proof -
  from assms(2,3) have ld: "loadState kw \<lparr>storage = Stored p, events = []\<rparr>
      = (Some p, \<lparr>storage = Stored p, events = [Console LOG]\<rparr>)"
    by (auto simp: loadState_def Let_def console_def)
  from assms(1,2) show ?thesis
    unfolding startFullGoogleSearchAutomation_def ld
    by (auto simp: runPhase_def phaseMismatch_def Let_def console_def emit_def saveState_def)
qed

lemma runPhase_initiate:
  assumes "currentPhase st = INITIATE_SEARCH"
  shows "fst (runPhase pg st w) = fst (runPhase pg st w')
     \<and> storage (snd (runPhase pg st w)) = storage (snd (runPhase pg st w'))
     \<and> (\<exists>tr. events (snd (runPhase pg st w)) = events w @ tr
            \<and> events (snd (runPhase pg st w')) = events w' @ tr)"
  using assms
  by (cases "searchButton pg")
     (simp_all add: runPhase_def processGoogleHomePage_def Let_def console_def emit_def
        saveState_def removeItem_def)

lemma new_keyword_restart:
  assumes "truthy kw" "kw \<noteq> keyword p"
  shows "fst (loadState kw \<lparr>storage = Stored p, events = []\<rparr>)
       = Some \<lparr>keyword = kw, currentPageNum = 1, allResults = [], currentPhase = INITIATE_SEARCH,
               maxPages = MAX_PAGES_TO_SCRAPE\<rparr>
     \<and> fst (startFullGoogleSearchAutomation kw pg \<lparr>storage = Stored p, events = []\<rparr>)
       = fst (startFullGoogleSearchAutomation kw pg \<lparr>storage = Absent, events = []\<rparr>)
     \<and> storage (snd (startFullGoogleSearchAutomation kw pg \<lparr>storage = Stored p, events = []\<rparr>))
       = storage (snd (startFullGoogleSearchAutomation kw pg \<lparr>storage = Absent, events = []\<rparr>))
     \<and> events (snd (startFullGoogleSearchAutomation kw pg \<lparr>storage = Stored p, events = []\<rparr>))
       = Console LOG # events (snd (startFullGoogleSearchAutomation kw pg \<lparr>storage = Absent, events = []\<rparr>))"
proof -
  from assms have ld: "loadState kw \<lparr>storage = Stored p, events = []\<rparr>
      = (Some (initialState kw), \<lparr>storage = Stored p, events = [Console LOG]\<rparr>)"
    by (auto simp: loadState_def Let_def console_def initialState_def)
  from assms have ld0: "loadState kw \<lparr>storage = Absent, events = []\<rparr>
      = (Some (initialState kw), \<lparr>storage = Absent, events = []\<rparr>)"
    by (auto simp: loadState_def Let_def)
  have ph: "currentPhase (initialState kw) = INITIATE_SEARCH"
    by (simp add: initialState_def)
  from runPhase_initiate [OF ph, of pg "\<lparr>storage = Stored p, events = [Console LOG]\<rparr>"
      "\<lparr>storage = Absent, events = []\<rparr>"]
  show ?thesis
    unfolding startFullGoogleSearchAutomation_def ld ld0
    by (auto simp: initialState_def)
qed

lemma no_keyword_clears:
  assumes "\<not> truthy kw" "\<not> truthy (keyword p)"
  shows "startFullGoogleSearchAutomation kw pg \<lparr>storage = Stored p, events = []\<rparr>
     = (initialState kw, \<lparr>storage = Absent, events = [Console ERROR, RemoveItem]\<rparr>)"
  using assms
  by (simp add: startFullGoogleSearchAutomation_def loadState_def Let_def console_def removeItem_def
        initialState_def)


text \<open>
  Claim C6 (recovery rule). Let the store hold a state whose phase does not match the
  location. If its keyword is known and the caller supplies the same keyword or none, the
  call resets the state to \<open>INITIATE_SEARCH\<close>, page 1, no results, with the keyword kept,
  writes it and navigates to the search home page, from where the workflow proceeds
  afresh. If the caller supplies a different keyword, the state is reset with that keyword
  and the call proceeds exactly as a fresh start with it does. If no keyword is available
  (none supplied, none stored), the store is cleared and the call returns after an error
  message.
\<close>

theorem phase_mismatch_recovery:
  assumes "phaseMismatch (currentPhase p) pg"
  shows "(truthy (keyword p) \<and> (kw = keyword p \<or> \<not> truthy kw) \<longrightarrow>
            startFullGoogleSearchAutomation kw pg \<lparr>storage = Stored p, events = []\<rparr>
              = (p\<lparr>currentPhase := INITIATE_SEARCH, currentPageNum := 1, allResults := []\<rparr>,
                 \<lparr>storage = Stored (p\<lparr>currentPhase := INITIATE_SEARCH, currentPageNum := 1, allResults := []\<rparr>),
                  events = [Console LOG, Console LOG, Console WARN, Console LOG,
                     SetItem (p\<lparr>currentPhase := INITIATE_SEARCH, currentPageNum := 1, allResults := []\<rparr>),
                     AssignLocation]\<rparr>))
    \<and> (truthy kw \<and> kw \<noteq> keyword p \<longrightarrow>
            fst (loadState kw \<lparr>storage = Stored p, events = []\<rparr>)
              = Some \<lparr>keyword = kw, currentPageNum = 1, allResults = [], currentPhase = INITIATE_SEARCH,
                      maxPages = MAX_PAGES_TO_SCRAPE\<rparr>
          \<and> fst (startFullGoogleSearchAutomation kw pg \<lparr>storage = Stored p, events = []\<rparr>)
              = fst (startFullGoogleSearchAutomation kw pg \<lparr>storage = Absent, events = []\<rparr>)
          \<and> storage (snd (startFullGoogleSearchAutomation kw pg \<lparr>storage = Stored p, events = []\<rparr>))
              = storage (snd (startFullGoogleSearchAutomation kw pg \<lparr>storage = Absent, events = []\<rparr>))
          \<and> events (snd (startFullGoogleSearchAutomation kw pg \<lparr>storage = Stored p, events = []\<rparr>))
              = Console LOG # events (snd (startFullGoogleSearchAutomation kw pg \<lparr>storage = Absent, events = []\<rparr>)))
    \<and> (\<not> truthy kw \<and> \<not> truthy (keyword p) \<longrightarrow>
            startFullGoogleSearchAutomation kw pg \<lparr>storage = Stored p, events = []\<rparr>
              = (initialState kw, \<lparr>storage = Absent, events = [Console ERROR, RemoveItem]\<rparr>))"
proof (intro conjI impI)
  assume "truthy (keyword p) \<and> (kw = keyword p \<or> \<not> truthy kw)"
  with mismatch_restart [OF assms, of kw]
  show "startFullGoogleSearchAutomation kw pg \<lparr>storage = Stored p, events = []\<rparr>
              = (p\<lparr>currentPhase := INITIATE_SEARCH, currentPageNum := 1, allResults := []\<rparr>,
                 \<lparr>storage = Stored (p\<lparr>currentPhase := INITIATE_SEARCH, currentPageNum := 1, allResults := []\<rparr>),
                  events = [Console LOG, Console LOG, Console WARN, Console LOG,
                     SetItem (p\<lparr>currentPhase := INITIATE_SEARCH, currentPageNum := 1, allResults := []\<rparr>),
                     AssignLocation]\<rparr>)"
    by blast
next
  assume "\<not> truthy kw \<and> \<not> truthy (keyword p)"
  then show "startFullGoogleSearchAutomation kw pg \<lparr>storage = Stored p, events = []\<rparr>
              = (initialState kw, \<lparr>storage = Absent, events = [Console ERROR, RemoveItem]\<rparr>)"
    by (simp add: no_keyword_clears)
qed (simp_all add: new_keyword_restart)

theorem phase_mismatch_recovery_witness:
  "phaseMismatch (currentPhase homeState) (resultsPage [] None)
   \<and> startFullGoogleSearchAutomation None (resultsPage [] None) \<lparr>storage = Stored homeState, events = []\<rparr>
       = (homeState\<lparr>currentPhase := INITIATE_SEARCH, currentPageNum := 1, allResults := []\<rparr>,
          \<lparr>storage = Stored (homeState\<lparr>currentPhase := INITIATE_SEARCH, currentPageNum := 1, allResults := []\<rparr>),
           events = [Console LOG, Console LOG, Console WARN, Console LOG,
              SetItem (homeState\<lparr>currentPhase := INITIATE_SEARCH, currentPageNum := 1, allResults := []\<rparr>),
              AssignLocation]\<rparr>)
   \<and> phaseMismatch (currentPhase (scrapingState 3 10 [])) (homePage True None)
   \<and> fst (startFullGoogleSearchAutomation (Some ''hol'') (homePage True None)
          \<lparr>storage = Stored (scrapingState 3 10 []), events = []\<rparr>)
       = fst (startFullGoogleSearchAutomation (Some ''hol'') (homePage True None) \<lparr>storage = Absent, events = []\<rparr>)
   \<and> startFullGoogleSearchAutomation None (homePage True None)
          \<lparr>storage = Stored ((scrapingState 3 10 [])\<lparr>keyword := None\<rparr>), events = []\<rparr>
       = (initialState None, \<lparr>storage = Absent, events = [Console ERROR, RemoveItem]\<rparr>)"
proof -
  have m1: "phaseMismatch (currentPhase homeState) (resultsPage [] None)"
    by (simp add: phaseMismatch_def homeState_def resultsPage_def)
  have m2: "phaseMismatch (currentPhase (scrapingState 3 10 [])) (homePage True None)"
    by (simp add: phaseMismatch_def scrapingState_def homePage_def)
  have m3: "phaseMismatch (currentPhase ((scrapingState 3 10 [])\<lparr>keyword := None\<rparr>)) (homePage True None)"
    by (simp add: phaseMismatch_def scrapingState_def homePage_def)
  have k1: "truthy (keyword homeState) \<and> (None = keyword homeState \<or> \<not> truthy None)"
    by (simp add: truthy_def homeState_def)
  have k2: "truthy (Some ''hol'') \<and> Some ''hol'' \<noteq> keyword (scrapingState 3 10 [])"
    by (simp add: truthy_def scrapingState_def)
  have k3: "\<not> truthy None \<and> \<not> truthy (keyword ((scrapingState 3 10 [])\<lparr>keyword := None\<rparr>))"
    by (simp add: truthy_def)
  note a = phase_mismatch_recovery [OF m1, THEN conjunct1, rule_format, OF k1]
  note b = phase_mismatch_recovery [OF m2, THEN conjunct2, THEN conjunct1, rule_format, OF k2,
      THEN conjunct2, THEN conjunct1]
  note c = phase_mismatch_recovery [OF m3, THEN conjunct2, THEN conjunct2, rule_format, OF k3]
  from m1 a m2 b c show ?thesis by (intro conjI)
qed

section \<open>No keyword available\<close>

text \<open>
  Claim C8. If no keyword is available (the caller supplies none, and the store is empty,
  unreadable or holds a state without keyword), the call writes an error to the console
  and returns: it attempts no navigation and writes no state, so no phase is advanced.
\<close>

theorem missing_keyword_aborts:
  assumes "\<not> truthy kw"
    and "\<sigma> = Absent \<or> \<sigma> = Corrupt \<or> (\<exists>p. \<sigma> = Stored p \<and> \<not> truthy (keyword p))"
  shows "startFullGoogleSearchAutomation kw pg \<lparr>storage = \<sigma>, events = []\<rparr>
     = (initialState kw,
        \<lparr>storage = (case \<sigma> of Corrupt \<Rightarrow> Corrupt | _ \<Rightarrow> Absent),
         events = (case \<sigma> of Absent \<Rightarrow> [Console ERROR]
                    | Corrupt \<Rightarrow> [Console ERROR, Console ERROR]
                    | Stored p \<Rightarrow> [Console ERROR, RemoveItem])\<rparr>)
    \<and> Console ERROR \<in> set (events (snd (startFullGoogleSearchAutomation kw pg \<lparr>storage = \<sigma>, events = []\<rparr>)))
    \<and> filter isNavigation (events (snd (startFullGoogleSearchAutomation kw pg \<lparr>storage = \<sigma>, events = []\<rparr>))) = []
    \<and> (\<forall>s. SetItem s \<notin> set (events (snd (startFullGoogleSearchAutomation kw pg \<lparr>storage = \<sigma>, events = []\<rparr>))))"
proof -
  have run: "startFullGoogleSearchAutomation kw pg \<lparr>storage = \<sigma>, events = []\<rparr>
     = (initialState kw,
        \<lparr>storage = (case \<sigma> of Corrupt \<Rightarrow> Corrupt | _ \<Rightarrow> Absent),
         events = (case \<sigma> of Absent \<Rightarrow> [Console ERROR]
                    | Corrupt \<Rightarrow> [Console ERROR, Console ERROR]
                    | Stored p \<Rightarrow> [Console ERROR, RemoveItem])\<rparr>)"
    using assms
    by (cases \<sigma>)
       (auto simp: startFullGoogleSearchAutomation_def loadState_def Let_def console_def
          removeItem_def initialState_def)
  show ?thesis
    unfolding run by (cases \<sigma>) (simp_all add: isNavigation_def)
qed

theorem missing_keyword_aborts_witness:
  "\<not> truthy None
   \<and> startFullGoogleSearchAutomation None (homePage True None) \<lparr>storage = Corrupt, events = []\<rparr>
       = (initialState None, \<lparr>storage = Corrupt, events = [Console ERROR, Console ERROR]\<rparr>)
   \<and> startFullGoogleSearchAutomation (Some []) (homePage True None) \<lparr>storage = Absent, events = []\<rparr>
       = (initialState (Some []), \<lparr>storage = Absent, events = [Console ERROR]\<rparr>)"
proof -
  have n: "\<not> truthy None" and e: "\<not> truthy (Some [])"
    by (simp_all add: truthy_def)
  from missing_keyword_aborts [OF n, of Corrupt "homePage True None", THEN conjunct1]
    missing_keyword_aborts [OF e, of Absent "homePage True None", THEN conjunct1] n
  show ?thesis by simp
qed

end
